theory Spec2Isabelle
  imports Main
begin

section \<open>The reminder job registry\<close>

text \<open>
  The registry of \<^verbatim>\<open>reminderJob.service\<close> is a module-level \<^verbatim>\<open>Map\<close> from job ids to
  job objects. A job object is a record; the JavaScript strings that name a status are the
  constructors of a datatype. A \<^verbatim>\<open>Date\<close> is its number of milliseconds, \<^verbatim>\<open>null\<close> and an
  absent property are \<open>None\<close>. Counts are natural numbers, costs are integers (the SMS
  price is 50, the e-mail price 0).
\<close>

type_synonym time = nat

datatype job_status = JProcessing | JCompleted | JFailed

datatype detail_status = DSent | DFailed

record detail =
  d_tenantId :: string
  d_tenantName :: string
  d_status :: detail_status
  d_cost :: int
  d_error :: "string option"

record job =
  j_id :: string
  j_status :: job_status
  j_total :: nat
  j_sent :: nat
  j_failed :: nat
  j_details :: "detail list"
  j_totalCost :: int
  j_startedAt :: time
  j_completedAt :: "time option"
  j_error :: "string option"

type_synonym registry = "string \<rightharpoonup> job"

text \<open>
  The object literal that \<^verbatim>\<open>createReminderJob\<close> stores. It has no \<^verbatim>\<open>error\<close> property.
\<close>

definition new_job :: "string \<Rightarrow> nat \<Rightarrow> time \<Rightarrow> job" where
  "new_job jobId totalCount now =
     \<lparr> j_id = jobId, j_status = JProcessing, j_total = totalCount, j_sent = 0, j_failed = 0,
       j_details = [], j_totalCost = 0, j_startedAt = now, j_completedAt = None,
       j_error = None \<rparr>"

text \<open>
  \<^verbatim>\<open>createReminderJob(jobId, totalCount)\<close>: \<^verbatim>\<open>jobs.set\<close> of the fresh object, then
  \<^verbatim>\<open>return jobs.get(jobId)\<close>. The result is the returned job and the registry after the call.
\<close>

definition createReminderJob :: "registry \<Rightarrow> string \<Rightarrow> nat \<Rightarrow> time \<Rightarrow> job option \<times> registry" where
  "createReminderJob jobs jobId totalCount now =
     (let jobs' = jobs(jobId \<mapsto> new_job jobId totalCount now)
      in (jobs' jobId, jobs'))"

text \<open>
  The partial object handed to \<^verbatim>\<open>updateJobProgress\<close>: a property that is present carries
  \<open>Some\<close> of the value to store. The callers only ever store a \<^verbatim>\<open>Date\<close> in
  \<^verbatim>\<open>completedAt\<close> and a message in \<^verbatim>\<open>error\<close>.
\<close>

record job_update =
  u_status :: "job_status option"
  u_total :: "nat option"
  u_sent :: "nat option"
  u_failed :: "nat option"
  u_details :: "detail list option"
  u_totalCost :: "int option"
  u_completedAt :: "time option"
  u_error :: "string option"

definition no_update :: job_update where
  "no_update = \<lparr> u_status = None, u_total = None, u_sent = None, u_failed = None,
                 u_details = None, u_totalCost = None, u_completedAt = None, u_error = None \<rparr>"

fun or_else :: "'a option \<Rightarrow> 'a \<Rightarrow> 'a" where
  "or_else None d = d"
| "or_else (Some v) d = v"

text \<open>\<^verbatim>\<open>Object.assign(job, update)\<close>.\<close>

definition assign :: "job \<Rightarrow> job_update \<Rightarrow> job" where
  "assign j u =
     j\<lparr> j_status := or_else (u_status u) (j_status j),
        j_total := or_else (u_total u) (j_total j),
        j_sent := or_else (u_sent u) (j_sent j),
        j_failed := or_else (u_failed u) (j_failed j),
        j_details := or_else (u_details u) (j_details j),
        j_totalCost := or_else (u_totalCost u) (j_totalCost j),
        j_completedAt := (case u_completedAt u of None \<Rightarrow> j_completedAt j | Some t \<Rightarrow> Some t),
        j_error := (case u_error u of None \<Rightarrow> j_error j | Some e \<Rightarrow> Some e) \<rparr>"

text \<open>\<^verbatim>\<open>updateJobProgress(jobId, update)\<close>: nothing happens when the id is unknown.\<close>

definition updateJobProgress :: "registry \<Rightarrow> string \<Rightarrow> job_update \<Rightarrow> registry" where
  "updateJobProgress jobs jobId update =
     (case jobs jobId of
        None \<Rightarrow> jobs
      | Some j \<Rightarrow> jobs(jobId \<mapsto> assign j update))"

text \<open>\<^verbatim>\<open>getJobStatus(jobId)\<close> of the service: \<^verbatim>\<open>jobs.get(jobId) || null\<close>.\<close>

definition getJobStatus :: "registry \<Rightarrow> string \<Rightarrow> job option" where
  "getJobStatus jobs jobId = jobs jobId"

text \<open>
  \<^verbatim>\<open>cleanupOldJobs\<close>, run every five minutes: delete each job whose \<^verbatim>\<open>completedAt\<close> is set
  and lies before \<^verbatim>\<open>Date.now() - 60 * 60 * 1000\<close>.
\<close>

definition cleanupOldJobs :: "time \<Rightarrow> registry \<Rightarrow> registry" where
  "cleanupOldJobs now jobs =
     (\<lambda>jobId. case jobs jobId of
        None \<Rightarrow> None
      | Some job \<Rightarrow>
          (case j_completedAt job of
             None \<Rightarrow> Some job
           | Some t \<Rightarrow> if int t < int now - 60 * 60 * 1000 then None else Some job))"

section \<open>The status and detail queries of the controller\<close>

text \<open>
  A request as the two handlers see it: \<^verbatim>\<open>req.user\<close> as the \<^verbatim>\<open>authenticate\<close> middleware
  attached it, and \<^verbatim>\<open>req.params.jobId\<close>.
\<close>

record req_user =
  ru_userId :: string
  ru_email :: string
  ru_name :: string
  ru_phone :: string
  ru_role :: string

record request =
  req_user :: req_user
  req_jobId :: string

record job_view =
  v_id :: string
  v_status :: job_status
  v_total :: nat
  v_sent :: nat
  v_failed :: nat
  v_totalCost :: int
  v_details :: "detail list option"
  v_startedAt :: time
  v_completedAt :: "time option"
  v_progress :: nat

datatype body = ErrorBody string | JobBody job_view

type_synonym response = "nat \<times> body"

text \<open>
  \<^verbatim>\<open>job.total > 0 ? Math.round(((job.sent + job.failed) / job.total) * 100) : 0\<close>.
  The source computes the percentage in double precision; \<open>percent n t\<close> stands for
  \<^verbatim>\<open>Math.round((n / t) * 100)\<close> and is a parameter of the two handlers.
\<close>

definition progress :: "(nat \<Rightarrow> nat \<Rightarrow> nat) \<Rightarrow> job \<Rightarrow> nat" where
  "progress percent j =
     (if j_total j > 0 then percent (j_sent j + j_failed j) (j_total j) else 0)"

text \<open>\<^verbatim>\<open>job.totalCost || 0\<close>\<close>

definition cost_or_zero :: "int \<Rightarrow> int" where
  "cost_or_zero c = (if c = 0 then 0 else c)"

text \<open>The controller's \<^verbatim>\<open>getJobStatus\<close> (renamed: the service's function has the name).\<close>

definition getJobStatus_handler :: "(nat \<Rightarrow> nat \<Rightarrow> nat) \<Rightarrow> registry \<Rightarrow> request \<Rightarrow> response" where
  "getJobStatus_handler percent jobs req =
     (case getJobStatus jobs (req_jobId req) of
        None \<Rightarrow> (404, ErrorBody ''Job not found'')
      | Some j \<Rightarrow>
          (200, JobBody \<lparr> v_id = j_id j, v_status = j_status j, v_total = j_total j,
                          v_sent = j_sent j, v_failed = j_failed j,
                          v_totalCost = cost_or_zero (j_totalCost j), v_details = None,
                          v_startedAt = j_startedAt j, v_completedAt = j_completedAt j,
                          v_progress = progress percent j \<rparr>))"

definition getJobDetails :: "(nat \<Rightarrow> nat \<Rightarrow> nat) \<Rightarrow> registry \<Rightarrow> request \<Rightarrow> response" where
  "getJobDetails percent jobs req =
     (case getJobStatus jobs (req_jobId req) of
        None \<Rightarrow> (404, ErrorBody ''Job not found'')
      | Some j \<Rightarrow>
          (200, JobBody \<lparr> v_id = j_id j, v_status = j_status j, v_total = j_total j,
                          v_sent = j_sent j, v_failed = j_failed j,
                          v_totalCost = cost_or_zero (j_totalCost j),
                          v_details = Some (j_details j),
                          v_startedAt = j_startedAt j, v_completedAt = j_completedAt j,
                          v_progress = progress percent j \<rparr>))"

section \<open>Collaborators of the dispatch loop\<close>

text \<open>
  The documents the loop reads. \<^verbatim>\<open>t_propertyName\<close> is \<^verbatim>\<open>tenant.propertyId.name\<close> after
  \<^verbatim>\<open>populate('propertyId', 'name')\<close>; it is \<open>None\<close> when the property no longer exists and
  \<^verbatim>\<open>propertyId\<close> is populated with \<^verbatim>\<open>null\<close>.
\<close>

record user =
  usr_id :: string
  usr_name :: string
  usr_phone :: string

record tenant =
  t_id :: string
  t_userId :: string
  t_name :: string
  t_phone :: string
  t_email :: "string option"
  t_unitNumber :: string
  t_rentAmount :: int
  t_dueDate :: nat
  t_propertyName :: "string option"
  t_deletedAt :: "time option"

datatype channel = SMS | Email

text \<open>The uniform outcome object of \<^verbatim>\<open>sendSMS\<close> and \<^verbatim>\<open>sendEmail\<close>.\<close>

record send_result =
  r_success :: bool
  r_cost :: int
  r_error :: "string option"

record log_entry =
  l_userId :: string
  l_tenantId :: string
  l_type :: channel
  l_status :: detail_status
  l_cost :: int
  l_errorMessage :: "string option"

record summary =
  s_method :: channel
  s_sent :: nat
  s_failed :: nat
  s_totalCost :: int

text \<open>
  The two places of one loop iteration that call \<^verbatim>\<open>ReminderLog.create\<close>: the \<^verbatim>\<open>try\<close> block
  and the \<^verbatim>\<open>catch\<close> block.
\<close>

datatype site = InTry | InCatch

text \<open>
  The calls the code makes to the outside, in the order it makes them. A call is recorded
  whether it returns or raises. \<open>Delay\<close> is
  \<^verbatim>\<open>await new Promise(resolve => setTimeout(resolve, ms))\<close>.
\<close>

datatype event =
    CallSendSMS string string
  | CallSendEmail "string option" string string
  | CallReminderLog log_entry
  | CallTenantSave string
  | CallEventLog string string summary
  | Delay nat

text \<open>
  Everything outside the module is a parameter. Every call returns or raises; a call that
  raises gives \<open>Inl\<close> of the exception's message, and a call that never returns is not
  modelled. \<^verbatim>\<open>userDocs\<close> and \<^verbatim>\<open>tenantDocs\<close> are the two collections at the time
  of the query (\<open>Inl\<close>: the query raises). The calls made once per loop iteration take the
  loop index, so that the same arguments may meet different outcomes at different times.
  The two renderers are pure functions of their arguments whose text plays no part in the
  job; they are parameters too.

  \<^verbatim>\<open>sendSMS\<close> and \<^verbatim>\<open>sendEmail\<close> stand for any sender with the uniform outcome. The two of
  the repository wrap their provider call in a \<^verbatim>\<open>try\<close> and turn its exception into a
  failed result, so they are senders that never give \<open>Inl\<close>; the loop does not rely on
  that. Calls of the logger are left out: they change nothing the loop reads.
\<close>

record world =
  userDocs :: "string + user list"
  tenantDocs :: "string + tenant list"
  renderSMSTemplate :: "tenant \<Rightarrow> string \<Rightarrow> user \<Rightarrow> string + string"
  renderEmailTemplate :: "tenant \<Rightarrow> string \<Rightarrow> user \<Rightarrow> string + string"
  sendSMS :: "nat \<Rightarrow> string \<Rightarrow> string \<Rightarrow> string + send_result"
  sendEmail :: "nat \<Rightarrow> string option \<Rightarrow> string \<Rightarrow> string \<Rightarrow> string + send_result"
  ReminderLog_create :: "nat \<Rightarrow> site \<Rightarrow> log_entry \<Rightarrow> string + unit"
  tenant_save :: "nat \<Rightarrow> tenant \<Rightarrow> string + unit"
  EventLog_create :: "string \<Rightarrow> string \<Rightarrow> summary \<Rightarrow> string + unit"

text \<open>\<^verbatim>\<open>User.findById(userId)\<close>\<close>

definition User_findById :: "world \<Rightarrow> string \<Rightarrow> string + user option" where
  "User_findById w userId =
     (case userDocs w of
        Inl e \<Rightarrow> Inl e
      | Inr docs \<Rightarrow> Inr (find (\<lambda>u. usr_id u = userId) docs))"

text \<open>
  \<^verbatim>\<open>Tenant.find({ _id: { $in: tenantIds }, userId, deletedAt: null })\<close>: the query selects;
  the documents come back in the order of the collection.
\<close>

definition Tenant_find :: "world \<Rightarrow> string list \<Rightarrow> string \<Rightarrow> string + tenant list" where
  "Tenant_find w tenantIds userId =
     (case tenantDocs w of
        Inl e \<Rightarrow> Inl e
      | Inr docs \<Rightarrow>
          Inr (filter (\<lambda>t. t_id t \<in> set tenantIds \<and> t_userId t = userId \<and> t_deletedAt t = None)
                 docs))"

text \<open>
  \<^verbatim>\<open>EventLog.logEvent\<close> wraps its write in a \<^verbatim>\<open>try\<close> whose \<^verbatim>\<open>catch\<close> only prints.
\<close>

definition logEvent :: "world \<Rightarrow> string \<Rightarrow> string \<Rightarrow> summary \<Rightarrow> string + unit" where
  "logEvent w userId eventType metadata =
     (case EventLog_create w userId eventType metadata of
        Inl e \<Rightarrow> Inr ()
      | Inr u \<Rightarrow> Inr ())"

text \<open>Truthiness of a string that may be \<^verbatim>\<open>null\<close>, and \<^verbatim>\<open>result.error || null\<close>.\<close>

fun truthy :: "string option \<Rightarrow> bool" where
  "truthy None = False"
| "truthy (Some s) = (s \<noteq> [])"

definition or_null :: "string option \<Rightarrow> string option" where
  "or_null s = (if truthy s then s else None)"

section \<open>The dispatch loop\<close>

text \<open>
  The state a run threads: the registry, the registry as it stood after the job was created
  and after every call of \<^verbatim>\<open>updateJobProgress\<close> (each is followed by an \<^verbatim>\<open>await\<close> or by
  the end of the run, so these are the states a poll can see), and the calls made so far.
\<close>

record state =
  jobs :: registry
  observed :: "registry list"
  effects :: "event list"

definition start :: "registry \<Rightarrow> state" where
  "start js = \<lparr> jobs = js, observed = [js], effects = [] \<rparr>"

definition update_and_observe :: "string \<Rightarrow> job_update \<Rightarrow> state \<Rightarrow> state" where
  "update_and_observe jobId u st =
     (let jobs' = updateJobProgress (jobs st) jobId u
      in st\<lparr> jobs := jobs', observed := observed st @ [jobs'] \<rparr>)"

definition perform :: "event list \<Rightarrow> state \<Rightarrow> state" where
  "perform evs st = st\<lparr> effects := effects st @ evs \<rparr>"

text \<open>
  The object literals of one iteration: the log entry and the detail entry built from a
  channel result in the \<^verbatim>\<open>try\<close> block, and the two built from a caught exception's
  message in the \<^verbatim>\<open>catch\<close> block.
\<close>

definition result_log :: "string \<Rightarrow> channel \<Rightarrow> tenant \<Rightarrow> send_result \<Rightarrow> log_entry" where
  "result_log userId method tenant result =
     \<lparr> l_userId = userId, l_tenantId = t_id tenant, l_type = method,
       l_status = (if r_success result then DSent else DFailed),
       l_cost = cost_or_zero (r_cost result),
       l_errorMessage = or_null (r_error result) \<rparr>"

definition result_detail :: "tenant \<Rightarrow> send_result \<Rightarrow> detail" where
  "result_detail tenant result =
     \<lparr> d_tenantId = t_id tenant, d_tenantName = t_name tenant,
       d_status = (if r_success result then DSent else DFailed),
       d_cost = cost_or_zero (r_cost result),
       d_error = or_null (r_error result) \<rparr>"

definition failed_log :: "string \<Rightarrow> channel \<Rightarrow> tenant \<Rightarrow> string \<Rightarrow> log_entry" where
  "failed_log userId method tenant e =
     \<lparr> l_userId = userId, l_tenantId = t_id tenant, l_type = method,
       l_status = DFailed, l_cost = 0, l_errorMessage = Some e \<rparr>"

definition failed_detail :: "tenant \<Rightarrow> string \<Rightarrow> detail" where
  "failed_detail tenant e =
     \<lparr> d_tenantId = t_id tenant, d_tenantName = t_name tenant,
       d_status = DFailed, d_cost = 0, d_error = Some e \<rparr>"

text \<open>
  Lines 358 to 389: render the message and hand it to the channel. The subject of the
  e-mail reads \<^verbatim>\<open>tenant.propertyId.name\<close>, a \<^verbatim>\<open>TypeError\<close> when the property is \<^verbatim>\<open>null\<close>.
\<close>

definition deliver ::
  "world \<Rightarrow> channel \<Rightarrow> string \<Rightarrow> user \<Rightarrow> nat \<Rightarrow> tenant \<Rightarrow> (string + send_result) \<times> event list" where
  "deliver w method targetMonth usr i tenant =
     (if method = SMS then
        (case renderSMSTemplate w tenant targetMonth usr of
           Inl e \<Rightarrow> (Inl e, [])
         | Inr message \<Rightarrow>
             (sendSMS w i (t_phone tenant) message, [CallSendSMS (t_phone tenant) message]))
      else
        (case renderEmailTemplate w tenant targetMonth usr of
           Inl e \<Rightarrow> (Inl e, [])
         | Inr html \<Rightarrow>
             (case t_propertyName tenant of
                None \<Rightarrow> (Inl ''Cannot read properties of null (reading name)'', [])
              | Some pn \<Rightarrow>
                  (sendEmail w i (t_email tenant) (''Rent Reminder - '' @ pn) html,
                   [CallSendEmail (t_email tenant) (''Rent Reminder - '' @ pn) html]))))"

text \<open>
  Lines 358 to 405, the \<^verbatim>\<open>try\<close> block up to the update of the tenant: deliver, write the
  reminder log, and save the tenant when the delivery succeeded. The first call that raises
  ends the block.
\<close>

definition attempt ::
  "world \<Rightarrow> string \<Rightarrow> channel \<Rightarrow> string \<Rightarrow> user \<Rightarrow> nat \<Rightarrow> tenant \<Rightarrow> (string + send_result) \<times> event list" where
  "attempt w userId method targetMonth usr i tenant =
     (case deliver w method targetMonth usr i tenant of
        (Inl e, evs) \<Rightarrow> (Inl e, evs)
      | (Inr result, evs) \<Rightarrow>
          (let entry = result_log userId method tenant result
           in case ReminderLog_create w i InTry entry of
                Inl e \<Rightarrow> (Inl e, evs @ [CallReminderLog entry])
              | Inr u \<Rightarrow>
                  if r_success result then
                    (case tenant_save w i tenant of
                       Inl e \<Rightarrow> (Inl e, evs @ [CallReminderLog entry, CallTenantSave (t_id tenant)])
                     | Inr u' \<Rightarrow>
                         (Inr result, evs @ [CallReminderLog entry, CallTenantSave (t_id tenant)]))
                  else (Inr result, evs @ [CallReminderLog entry])))"

text \<open>
  Lines 426 to 449, the \<^verbatim>\<open>catch\<close> block of one iteration, entered with the message \<open>e\<close>.
  Its own write of the reminder log is not guarded, and \<^verbatim>\<open>job.failed\<close> raises a
  \<^verbatim>\<open>TypeError\<close> when the job is not in the registry: \<open>Inl\<close> is an exception that leaves
  the loop.
\<close>

definition on_failure ::
  "world \<Rightarrow> string \<Rightarrow> string \<Rightarrow> channel \<Rightarrow> nat \<Rightarrow> tenant \<Rightarrow> string \<Rightarrow> state \<Rightarrow> (string + unit) \<times> state" where
  "on_failure w jobId userId method i tenant e st =
     (let entry = failed_log userId method tenant e;
          st1 = perform [CallReminderLog entry] st
      in case ReminderLog_create w i InCatch entry of
           Inl e' \<Rightarrow> (Inl e', st1)
         | Inr u \<Rightarrow>
             (case jobs st1 jobId of
                None \<Rightarrow> (Inl ''Cannot read properties of undefined (reading failed)'', st1)
              | Some job \<Rightarrow>
                  (Inr (),
                   update_and_observe jobId
                     (no_update\<lparr> u_failed := Some (j_failed job + 1),
                                 u_details := Some (j_details job @ [failed_detail tenant e]) \<rparr>)
                     st1)))"

text \<open>
  One iteration of the loop, lines 355 to 449. The local \<^verbatim>\<open>totalCost\<close> goes in and
  comes out; \<open>Inl\<close> is an exception that escaped the iteration's \<^verbatim>\<open>catch\<close>.
\<close>

definition processTenant ::
  "world \<Rightarrow> string \<Rightarrow> string \<Rightarrow> channel \<Rightarrow> string \<Rightarrow> user \<Rightarrow> nat \<Rightarrow> tenant \<Rightarrow> int \<Rightarrow> state
     \<Rightarrow> (string + int) \<times> state" where
  "processTenant w jobId userId method targetMonth usr i tenant totalCost st =
     (case attempt w userId method targetMonth usr i tenant of
        (Inl e, evs) \<Rightarrow>
          (case on_failure w jobId userId method i tenant e (perform evs st) of
             (Inl e', st2) \<Rightarrow> (Inl e', st2)
           | (Inr u, st2) \<Rightarrow> (Inr totalCost, st2))
      | (Inr result, evs) \<Rightarrow>
          (let st1 = perform evs st;
               totalCost' = totalCost + cost_or_zero (r_cost result)
           in case jobs st1 jobId of
                None \<Rightarrow>
                  (case on_failure w jobId userId method i tenant
                          ''Cannot read properties of undefined (reading sent)'' st1 of
                     (Inl e', st2) \<Rightarrow> (Inl e', st2)
                   | (Inr u, st2) \<Rightarrow> (Inr totalCost', st2))
              | Some job \<Rightarrow>
                  (Inr totalCost',
                   update_and_observe jobId
                     (no_update\<lparr>
                        u_sent := Some (if r_success result then j_sent job + 1 else j_sent job),
                        u_failed := Some (if r_success result then j_failed job else j_failed job + 1),
                        u_details := Some (j_details job @ [result_detail tenant result]),
                        u_totalCost := Some totalCost' \<rparr>)
                     st1)))"

text \<open>The \<^verbatim>\<open>for\<close> loop over \<^verbatim>\<open>eligibleTenants\<close>, from index \<open>i\<close> on.\<close>

fun processTenants ::
  "world \<Rightarrow> string \<Rightarrow> string \<Rightarrow> channel \<Rightarrow> string \<Rightarrow> user \<Rightarrow> nat \<Rightarrow> tenant list \<Rightarrow> int \<Rightarrow> state
     \<Rightarrow> (string + int) \<times> state" where
  "processTenants w jobId userId method targetMonth usr i [] totalCost st = (Inr totalCost, st)"
| "processTenants w jobId userId method targetMonth usr i (tenant # rest) totalCost st =
     (case processTenant w jobId userId method targetMonth usr i tenant totalCost st of
        (Inl e, st') \<Rightarrow> (Inl e, st')
      | (Inr totalCost', st') \<Rightarrow>
          processTenants w jobId userId method targetMonth usr (Suc i) rest totalCost' st')"

text \<open>Lines 341 to 345: the filter by method.\<close>

definition eligibleTenants :: "channel \<Rightarrow> tenant list \<Rightarrow> tenant list" where
  "eligibleTenants method tenants =
     (if method = Email then filter (\<lambda>t. truthy (t_email t)) tenants else tenants)"

definition fail_update :: "string \<Rightarrow> time \<Rightarrow> job_update" where
  "fail_update msg now =
     no_update\<lparr> u_status := Some JFailed, u_error := Some msg, u_completedAt := Some now \<rparr>"

text \<open>
  The body of the outer \<^verbatim>\<open>try\<close>, lines 312 to 469. \<open>now\<close> is the clock when the run
  stores \<^verbatim>\<open>completedAt\<close>, which every path does at most once.
\<close>

definition dispatch ::
  "world \<Rightarrow> string \<Rightarrow> string \<Rightarrow> string list \<Rightarrow> channel \<Rightarrow> string \<Rightarrow> time \<Rightarrow> state
     \<Rightarrow> (string + unit) \<times> state" where
  "dispatch w jobId userId tenantIds method targetMonth now st =
     (case User_findById w userId of
        Inl e \<Rightarrow> (Inl e, st)
      | Inr None \<Rightarrow> (Inr (), update_and_observe jobId (fail_update ''User not found'' now) st)
      | Inr (Some usr) \<Rightarrow>
          (case Tenant_find w tenantIds userId of
             Inl e \<Rightarrow> (Inl e, st)
           | Inr tenants \<Rightarrow>
               if length tenants = 0 then
                 (Inr (), update_and_observe jobId (fail_update ''No valid tenants found'' now) st)
               else
                 (let eligible = eligibleTenants method tenants;
                      st1 = update_and_observe jobId
                              (no_update\<lparr> u_total := Some (length eligible) \<rparr>) st
                  in case processTenants w jobId userId method targetMonth usr 0 eligible 0 st1 of
                       (Inl e, st2) \<Rightarrow> (Inl e, st2)
                     | (Inr totalCost, st2) \<Rightarrow>
                         (case jobs st2 jobId of
                            None \<Rightarrow>
                              (Inl ''Cannot read properties of undefined (reading sent)'', st2)
                          | Some job \<Rightarrow>
                              (let meta = \<lparr> s_method = method, s_sent = j_sent job,
                                            s_failed = j_failed job, s_totalCost = totalCost \<rparr>;
                                   st3 = perform [CallEventLog userId ''REMINDERS_SENT'' meta] st2
                               in case logEvent w userId ''REMINDERS_SENT'' meta of
                                    Inl e \<Rightarrow> (Inl e, st3)
                                  | Inr u \<Rightarrow>
                                      (Inr (),
                                       update_and_observe jobId
                                         (no_update\<lparr> u_status := Some JCompleted,
                                                     u_totalCost := Some totalCost,
                                                     u_completedAt := Some now \<rparr>)
                                         st3))))))"

text \<open>
  \<^verbatim>\<open>processRemindersInBackground\<close>: the body, and the outermost \<^verbatim>\<open>catch\<close> of lines 470
  to 477.
\<close>

definition processRemindersInBackground ::
  "world \<Rightarrow> string \<Rightarrow> string \<Rightarrow> string list \<Rightarrow> channel \<Rightarrow> string \<Rightarrow> time \<Rightarrow> state \<Rightarrow> state" where
  "processRemindersInBackground w jobId userId tenantIds method targetMonth now st =
     (case dispatch w jobId userId tenantIds method targetMonth now st of
        (Inl e, st') \<Rightarrow> update_and_observe jobId (fail_update e now) st'
      | (Inr u, st') \<Rightarrow> st')"

text \<open>
  Lines 89 to 97 of the controller's \<^verbatim>\<open>sendReminders\<close>: register the job under a fresh
  id with the estimated count, then start the loop on it.
\<close>

definition accepted ::
  "world \<Rightarrow> registry \<Rightarrow> string \<Rightarrow> nat \<Rightarrow> time \<Rightarrow> string \<Rightarrow> string list \<Rightarrow> channel \<Rightarrow> string \<Rightarrow> time
     \<Rightarrow> state" where
  "accepted w js jobId eligibleCount t0 userId tenantIds method targetMonth now =
     (case createReminderJob js jobId eligibleCount t0 of
        (job, js') \<Rightarrow>
          processRemindersInBackground w jobId userId tenantIds method targetMonth now (start js'))"

section \<open>The bulk senders\<close>

text \<open>
  \<^verbatim>\<open>sendBulkSMS\<close> of the SMS service: send each message in turn and wait 100 ms after each.
  The dispatch loop does not call it.
\<close>

fun sendBulkSMS :: "world \<Rightarrow> nat \<Rightarrow> (string \<times> string) list \<Rightarrow> (string + send_result list) \<times> event list" where
  "sendBulkSMS w i [] = (Inr [], [])"
| "sendBulkSMS w i ((to, message) # msgs) =
     (case sendSMS w i to message of
        Inl e \<Rightarrow> (Inl e, [CallSendSMS to message])
      | Inr result \<Rightarrow>
          (case sendBulkSMS w (Suc i) msgs of
             (Inl e, evs) \<Rightarrow> (Inl e, [CallSendSMS to message, Delay 100] @ evs)
           | (Inr results, evs) \<Rightarrow>
               (Inr (result # results), [CallSendSMS to message, Delay 100] @ evs)))"

section \<open>What a poll may see\<close>

text \<open>
  The properties of one job object: the counters against the total and the details, the
  completion time against the status, the error against the status.
\<close>

definition counts_ok :: "job \<Rightarrow> bool" where
  "counts_ok j \<longleftrightarrow>
     j_sent j + j_failed j \<le> j_total j \<and> length (j_details j) = j_sent j + j_failed j"

definition terminal :: "job \<Rightarrow> bool" where
  "terminal j \<longleftrightarrow> j_status j = JCompleted \<or> j_status j = JFailed"

definition completion_ok :: "job \<Rightarrow> bool" where
  "completion_ok j \<longleftrightarrow> (j_completedAt j \<noteq> None) = terminal j"

definition error_ok :: "job \<Rightarrow> bool" where
  "error_ok j \<longleftrightarrow> (j_error j \<noteq> None) = (j_status j = JFailed)"

text \<open>
  Two polls of one job, \<open>a\<close> taken before \<open>b\<close>: the counters do not go down, and after a
  terminal status nothing moves.
\<close>

definition poll_ok :: "job \<Rightarrow> job \<Rightarrow> bool" where
  "poll_ok a b \<longleftrightarrow>
     j_sent a \<le> j_sent b \<and> j_failed a \<le> j_failed b \<and>
     (terminal a \<longrightarrow>
        j_sent b = j_sent a \<and> j_failed b = j_failed a \<and> j_details b = j_details a \<and>
        j_totalCost b = j_totalCost a)"

definition polls_ok :: "string \<Rightarrow> registry \<Rightarrow> registry \<Rightarrow> bool" where
  "polls_ok jobId r r' \<longleftrightarrow> (\<forall>a b. r jobId = Some a \<longrightarrow> r' jobId = Some b \<longrightarrow> poll_ok a b)"

text \<open>
  The state of a run while the job is being processed, with room for \<open>k\<close> more recipients,
  and the state of a run that has ended.
\<close>

definition running :: "job \<Rightarrow> bool" where
  "running a \<longleftrightarrow>
     j_status a = JProcessing \<and> j_completedAt a = None \<and> j_error a = None \<and> counts_ok a"

definition in_loop :: "string \<Rightarrow> nat \<Rightarrow> state \<Rightarrow> bool" where
  "in_loop jobId k st \<longleftrightarrow>
     observed st \<noteq> [] \<and> last (observed st) = jobs st \<and>
     (\<exists>cur. jobs st jobId = Some cur \<and> j_sent cur + j_failed cur + k \<le> j_total cur \<and>
        (\<forall>r \<in> set (observed st).
           \<exists>a. r jobId = Some a \<and> running a \<and> j_sent a \<le> j_sent cur \<and> j_failed a \<le> j_failed cur)) \<and>
     sorted_wrt (polls_ok jobId) (observed st)"

definition finished :: "string \<Rightarrow> state \<Rightarrow> bool" where
  "finished jobId st \<longleftrightarrow>
     observed st \<noteq> [] \<and> last (observed st) = jobs st \<and>
     (\<exists>fin. jobs st jobId = Some fin \<and> terminal fin \<and> j_completedAt fin \<noteq> None \<and>
        counts_ok fin \<and> error_ok fin) \<and>
     (\<forall>r \<in> set (butlast (observed st)). \<exists>a. r jobId = Some a \<and> running a) \<and>
     sorted_wrt (polls_ok jobId) (observed st)"

text \<open>
  What one recipient contributes to \<^verbatim>\<open>details\<close> when the iteration's \<^verbatim>\<open>catch\<close> block
  completes, and whether it does: the \<^verbatim>\<open>catch\<close> block is only entered when the
  \<^verbatim>\<open>try\<close> block raised, and completes when its own log write returns.
\<close>

definition outcome :: "world \<Rightarrow> string \<Rightarrow> channel \<Rightarrow> string \<Rightarrow> user \<Rightarrow> nat \<Rightarrow> tenant \<Rightarrow> detail" where
  "outcome w userId method targetMonth usr i tenant =
     (case fst (attempt w userId method targetMonth usr i tenant) of
        Inl e \<Rightarrow> failed_detail tenant e
      | Inr result \<Rightarrow> result_detail tenant result)"

fun outcomes :: "world \<Rightarrow> string \<Rightarrow> channel \<Rightarrow> string \<Rightarrow> user \<Rightarrow> nat \<Rightarrow> tenant list \<Rightarrow> detail list" where
  "outcomes w userId method targetMonth usr i [] = []"
| "outcomes w userId method targetMonth usr i (t # ts) =
     outcome w userId method targetMonth usr i t #
     outcomes w userId method targetMonth usr (Suc i) ts"

definition handled :: "world \<Rightarrow> string \<Rightarrow> channel \<Rightarrow> string \<Rightarrow> user \<Rightarrow> nat \<Rightarrow> tenant \<Rightarrow> bool" where
  "handled w userId method targetMonth usr i tenant =
     (case fst (attempt w userId method targetMonth usr i tenant) of
        Inl e \<Rightarrow> ReminderLog_create w i InCatch (failed_log userId method tenant e) = Inr ()
      | Inr result \<Rightarrow> True)"

fun all_handled :: "world \<Rightarrow> string \<Rightarrow> channel \<Rightarrow> string \<Rightarrow> user \<Rightarrow> nat \<Rightarrow> tenant list \<Rightarrow> bool" where
  "all_handled w userId method targetMonth usr i [] = True"
| "all_handled w userId method targetMonth usr i (t # ts) =
     (handled w userId method targetMonth usr i t \<and>
      all_handled w userId method targetMonth usr (Suc i) ts)"

definition count_status :: "detail_status \<Rightarrow> detail list \<Rightarrow> nat" where
  "count_status s ds = length (filter (\<lambda>d. d_status d = s) ds)"

definition no_delay :: "event list \<Rightarrow> bool" where
  "no_delay evs \<longleftrightarrow> (\<forall>n. Delay n \<notin> set evs)"

section \<open>Example inputs\<close>

text \<open>A registry holding one finished job, and two users.\<close>

definition registry0 :: registry where
  "registry0 = Map.empty(''job-1'' \<mapsto>
     (new_job ''job-1'' 1 1000)\<lparr> j_status := JCompleted, j_sent := 1,
        j_details := [\<lparr> d_tenantId = ''t1'', d_tenantName = ''Amina'', d_status = DSent,
                        d_cost = 50, d_error = None \<rparr>],
        j_totalCost := 50, j_completedAt := Some 2000 \<rparr>)"

text \<open>The percentage rounded half up, taken exactly.\<close>

definition exact_percent :: "nat \<Rightarrow> nat \<Rightarrow> nat" where
  "exact_percent n t = (200 * n + t) div (2 * t)"

definition alice :: req_user where
  "alice = \<lparr> ru_userId = ''u-alice'', ru_email = ''alice@example.com'', ru_name = ''Alice'',
             ru_phone = ''+256700000001'', ru_role = ''landlord'' \<rparr>"

definition bob :: req_user where
  "bob = \<lparr> ru_userId = ''u-bob'', ru_email = ''bob@example.com'', ru_name = ''Bob'',
           ru_phone = ''+256700000002'', ru_role = ''landlord'' \<rparr>"

text \<open>
  A landlord with three tenants, the second without an e-mail address, in a world where
  every collaborator works; the same world with a sender that raises for the second
  recipient, with a log store that raises on the first write of a run only, and with a log
  store that is down from the second recipient on; and a world whose second tenant has an
  address but no property any more.
\<close>

definition landlord :: user where
  "landlord = \<lparr> usr_id = ''u-1'', usr_name = ''Grace'', usr_phone = ''+256700000009'' \<rparr>"

definition amina :: tenant where
  "amina = \<lparr> t_id = ''t-1'', t_userId = ''u-1'', t_name = ''Amina'', t_phone = ''+256700000011'',
             t_email = Some ''amina@example.com'', t_unitNumber = ''A1'', t_rentAmount = 500000,
             t_dueDate = 5, t_propertyName = Some ''Acacia Court'', t_deletedAt = None \<rparr>"

definition brian :: tenant where
  "brian = \<lparr> t_id = ''t-2'', t_userId = ''u-1'', t_name = ''Brian'', t_phone = ''+256700000012'',
             t_email = None, t_unitNumber = ''A2'', t_rentAmount = 450000,
             t_dueDate = 5, t_propertyName = Some ''Acacia Court'', t_deletedAt = None \<rparr>"

definition carol :: tenant where
  "carol = \<lparr> t_id = ''t-3'', t_userId = ''u-1'', t_name = ''Carol'', t_phone = ''+256700000013'',
             t_email = Some ''carol@example.com'', t_unitNumber = ''B1'', t_rentAmount = 600000,
             t_dueDate = 1, t_propertyName = Some ''Acacia Court'', t_deletedAt = None \<rparr>"

definition delivered :: "int \<Rightarrow> send_result" where
  "delivered c = \<lparr> r_success = True, r_cost = c, r_error = None \<rparr>"

definition world0 :: world where
  "world0 =
     \<lparr> userDocs = Inr [landlord],
       tenantDocs = Inr [amina, brian, carol],
       renderSMSTemplate = (\<lambda>t m u. Inr (''Hello '' @ t_name t)),
       renderEmailTemplate = (\<lambda>t m u. Inr (''<p>Hello '' @ t_name t @ ''</p>'')),
       sendSMS = (\<lambda>i to message. Inr (delivered 50)),
       sendEmail = (\<lambda>i to subject html. Inr (delivered 0)),
       ReminderLog_create = (\<lambda>i s entry. Inr ()),
       tenant_save = (\<lambda>i t. Inr ()),
       EventLog_create = (\<lambda>u ty m. Inr ()) \<rparr>"

definition world_sender_raises :: world where
  "world_sender_raises =
     world0\<lparr> sendSMS := (\<lambda>i to message. if i = 1 then Inl ''provider timeout''
                                          else Inr (delivered 50)) \<rparr>"


definition world_log_goes_down :: world where
  "world_log_goes_down =
     world0\<lparr> ReminderLog_create := (\<lambda>i s entry. if 1 \<le> i then Inl ''log store down''
                                                else Inr ()) \<rparr>"

definition david :: tenant where
  "david = \<lparr> t_id = ''t-4'', t_userId = ''u-1'', t_name = ''David'', t_phone = ''+256700000014'',
             t_email = Some ''david@example.com'', t_unitNumber = ''C3'', t_rentAmount = 400000,
             t_dueDate = 10, t_propertyName = None, t_deletedAt = None \<rparr>"

definition world_property_gone :: world where
  "world_property_gone = world0\<lparr> tenantDocs := Inr [amina, david, carol] \<rparr>"

text \<open>Three accepted runs over all three tenants by SMS.\<close>

definition run_all_delivered :: state where
  "run_all_delivered = accepted world0 Map.empty ''job-7'' 3 1000 ''u-1''
            [''t-1'', ''t-2'', ''t-3''] SMS ''2025-11'' 2000"

definition run_sender_raises :: state where
  "run_sender_raises = accepted world_sender_raises Map.empty ''job-7'' 3 1000 ''u-1''
            [''t-1'', ''t-2'', ''t-3''] SMS ''2025-11'' 2000"

definition run_log_goes_down :: state where
  "run_log_goes_down = accepted world_log_goes_down Map.empty ''job-7'' 3 1000 ''u-1''
            [''t-1'', ''t-2'', ''t-3''] SMS ''2025-11'' 2000"


definition run_no_address :: state where
  "run_no_address = accepted world0 Map.empty ''job-7'' 1 1000 ''u-1'' [''t-2''] Email ''2025-11'' 2000"

definition run_property_gone :: state where
  "run_property_gone = accepted world_property_gone Map.empty ''job-7'' 3 1000 ''u-1''
            [''t-1'', ''t-4'', ''t-3''] Email ''2025-11'' 2000"

definition run_two_by_sms :: state where
  "run_two_by_sms = accepted world0 Map.empty ''job-7'' 2 1000 ''u-1'' [''t-1'', ''t-3''] SMS ''2025-11'' 2000"

text \<open>
  A world whose sender raises for the second recipient and whose log store raises on the
  write of that iteration's \<^verbatim>\<open>catch\<close> block, and the run over all three tenants in it.
\<close>

definition world_sender_and_handler_raise :: world where
  "world_sender_and_handler_raise =
     world_sender_raises\<lparr> ReminderLog_create :=
        (\<lambda>i s entry. if i = 1 \<and> s = InCatch then Inl ''log store down'' else Inr ()) \<rparr>"

definition run_handler_raises :: state where
  "run_handler_raises = accepted world_sender_and_handler_raise Map.empty ''job-7'' 3 1000 ''u-1''
            [''t-1'', ''t-2'', ''t-3''] SMS ''2025-11'' 2000"


section \<open>Creating a job under an id that is taken\<close>

text \<open>
  Claim C8, as stated: creating a job under an id the registry already holds leaves the
  existing record unchanged. It fails on \<open>registry0\<close>, whose finished job is replaced.
\<close>

theorem createReminderJob_existing_counterexample:
  "registry0 ''job-1'' \<noteq> None \<and>
   snd (createReminderJob registry0 ''job-1'' 3 9000) ''job-1'' \<noteq> registry0 ''job-1''"
  by (simp add: registry0_def createReminderJob_def new_job_def)

text \<open>
  Claim C8, amended: \<^verbatim>\<open>createReminderJob\<close> under an id that is taken does not raise and
  replaces the record with a fresh one: processing, both counters zero, no details, no cost,
  no completion time, no error, and the total and start time of the new call. Every other
  job of the registry is left as it was.
\<close>

theorem createReminderJob_replaces:
  "js jobId = Some old \<Longrightarrow>
   (\<exists>j. fst (createReminderJob js jobId totalCount now) = Some j \<and>
        getJobStatus (snd (createReminderJob js jobId totalCount now)) jobId = Some j \<and>
        j_id j = jobId \<and> j_status j = JProcessing \<and> j_total j = totalCount \<and>
        j_sent j = 0 \<and> j_failed j = 0 \<and> j_details j = [] \<and> j_totalCost j = 0 \<and>
        j_startedAt j = now \<and> j_completedAt j = None \<and> j_error j = None) \<and>
   (\<forall>k. k \<noteq> jobId \<longrightarrow>
        getJobStatus (snd (createReminderJob js jobId totalCount now)) k = getJobStatus js k)"
  by (simp add: createReminderJob_def new_job_def getJobStatus_def)

theorem createReminderJob_replaces_witness:
  "registry0 ''job-1'' \<noteq> None \<and>
   (\<exists>j. getJobStatus (snd (createReminderJob registry0 ''job-1'' 3 9000)) ''job-1'' = Some j \<and>
        j_status j = JProcessing \<and> j_total j = 3 \<and> j_sent j = 0 \<and> j_details j = [] \<and>
        j_completedAt j = None)"
proof -
  obtain old where h: "registry0 ''job-1'' = Some old"
    by (simp add: registry0_def)
  from createReminderJob_replaces [of registry0 "''job-1''" old 3 9000] h show ?thesis
    by auto
qed

section \<open>Who may read a job\<close>

text \<open>
  Claim C10: the two job queries look the job up by the id in the path and never read
  \<^verbatim>\<open>req.user\<close>. For a job in the registry, any two requests for its id get the same
  answer, status 200 with the job's data (the detail query with the full \<^verbatim>\<open>details\<close>
  list), whoever the authenticated requesters are.
\<close>

theorem job_queries_ignore_requester:
  assumes "js (req_jobId r1) = Some j" and "req_jobId r2 = req_jobId r1"
  shows "getJobStatus_handler percent js r2 = getJobStatus_handler percent js r1 \<and>
         getJobDetails percent js r2 = getJobDetails percent js r1 \<and>
         (\<exists>v. getJobStatus_handler percent js r2 = (200, JobBody v) \<and> v_id v = j_id j \<and>
              v_status v = j_status j \<and> v_sent v = j_sent j \<and> v_failed v = j_failed j) \<and>
         (\<exists>v. getJobDetails percent js r2 = (200, JobBody v) \<and> v_details v = Some (j_details j))"
  using assms by (simp add: getJobStatus_handler_def getJobDetails_def getJobStatus_def)

theorem job_queries_ignore_requester_witness:
  "alice \<noteq> bob \<and>
   getJobStatus_handler exact_percent registry0 \<lparr> req_user = bob, req_jobId = ''job-1'' \<rparr> =
   getJobStatus_handler exact_percent registry0 \<lparr> req_user = alice, req_jobId = ''job-1'' \<rparr> \<and>
   getJobDetails exact_percent registry0 \<lparr> req_user = bob, req_jobId = ''job-1'' \<rparr> =
   getJobDetails exact_percent registry0 \<lparr> req_user = alice, req_jobId = ''job-1'' \<rparr> \<and>
   fst (getJobDetails exact_percent registry0 \<lparr> req_user = bob, req_jobId = ''job-1'' \<rparr>) = 200"
proof -
  obtain j where h: "registry0 (req_jobId \<lparr> req_user = alice, req_jobId = ''job-1'' \<rparr>) = Some j"
    by (simp add: registry0_def)
  have e: "req_jobId \<lparr> req_user = bob, req_jobId = ''job-1'' \<rparr>
         = req_jobId \<lparr> req_user = alice, req_jobId = ''job-1'' \<rparr>" by simp
  have d: "alice \<noteq> bob" by (simp add: alice_def bob_def)
  from job_queries_ignore_requester [where percent = exact_percent and js = registry0
      and ?r1.0 = "\<lparr> req_user = alice, req_jobId = ''job-1'' \<rparr>" and j = j
      and ?r2.0 = "\<lparr> req_user = bob, req_jobId = ''job-1'' \<rparr>", OF h e] d show ?thesis
    by (metis fst_conv)
qed

section \<open>The job while a run is under way\<close>

text \<open>
  A run writes to its own job only, and the sweep leaves an unfinished job alone and never
  alters a job it keeps. So what a poll sees of a job between its creation and its end are
  the states of its own run.
\<close>

lemma updateJobProgress_other:
  "k \<noteq> jobId \<Longrightarrow> updateJobProgress js jobId u k = js k"
  by (simp add: updateJobProgress_def split: option.splits)

lemma cleanupOldJobs_unfinished:
  "js jobId = Some job \<Longrightarrow> j_completedAt job = None \<Longrightarrow> cleanupOldJobs now js jobId = Some job"
  by (simp add: cleanupOldJobs_def)

lemma cleanupOldJobs_kept:
  "cleanupOldJobs now js jobId = Some job \<Longrightarrow> js jobId = Some job"
  by (simp add: cleanupOldJobs_def split: option.splits if_splits)

lemma update_and_observe_jobs:
  "jobs st jobId = Some job \<Longrightarrow>
   jobs (update_and_observe jobId u st) jobId = Some (assign job u)"
  by (simp add: update_and_observe_def updateJobProgress_def Let_def)

lemma perform_jobs [simp]: "jobs (perform evs st) = jobs st"
  by (simp add: perform_def)

lemma in_loop_weaken: "in_loop jobId k st \<Longrightarrow> k' \<le> k \<Longrightarrow> in_loop jobId k' st"
  unfolding in_loop_def by (elim conjE exE) (intro conjI exI; (assumption | simp))

lemma in_loop_perform [simp]: "in_loop jobId k (perform evs st) = in_loop jobId k st"
  by (simp add: in_loop_def perform_def)

lemma in_loop_current:
  assumes "in_loop jobId k st"
  obtains cur where "jobs st jobId = Some cur" "running cur"
    "j_sent cur + j_failed cur + k \<le> j_total cur"
proof -
  from assms obtain cur where c: "jobs st jobId = Some cur"
      "j_sent cur + j_failed cur + k \<le> j_total cur"
      "\<forall>r \<in> set (observed st). \<exists>a. r jobId = Some a \<and> running a \<and> j_sent a \<le> j_sent cur \<and> j_failed a \<le> j_failed cur"
    and ne: "observed st \<noteq> []" and l: "last (observed st) = jobs st"
    unfolding in_loop_def by blast
  from ne l have "jobs st \<in> set (observed st)" by (metis last_in_set)
  with c have "running cur" by fastforce
  with c that show thesis by blast
qed

text \<open>An update that records one more recipient.\<close>

lemma in_loop_step:
  assumes inv: "in_loop jobId (Suc k) st"
    and cur: "jobs st jobId = Some cur"
    and st: "j_status (assign cur u) = j_status cur" "j_completedAt (assign cur u) = j_completedAt cur"
       "j_error (assign cur u) = j_error cur" "j_total (assign cur u) = j_total cur"
    and cnt: "j_sent cur \<le> j_sent (assign cur u)" "j_failed cur \<le> j_failed (assign cur u)"
       "j_sent (assign cur u) + j_failed (assign cur u) = Suc (j_sent cur + j_failed cur)"
       "length (j_details (assign cur u)) = Suc (length (j_details cur))"
  shows "in_loop jobId k (update_and_observe jobId u st)"
proof -
  let ?b = "assign cur u"
  let ?js = "(jobs st)(jobId \<mapsto> ?b)"
  from inv cur have ne: "observed st \<noteq> []" and l: "last (observed st) = jobs st"
    and room: "j_sent cur + j_failed cur + Suc k \<le> j_total cur"
    and old: "\<forall>r \<in> set (observed st). \<exists>a. r jobId = Some a \<and> running a \<and> j_sent a \<le> j_sent cur \<and> j_failed a \<le> j_failed cur"
    and srt: "sorted_wrt (polls_ok jobId) (observed st)"
    unfolding in_loop_def by auto
  from inv cur have rc: "running cur" by (metis in_loop_current option.inject)
  have upd: "update_and_observe jobId u st = st\<lparr> jobs := ?js, observed := observed st @ [?js] \<rparr>"
    using cur by (simp add: update_and_observe_def updateJobProgress_def Let_def)
  have rb: "running ?b"
    using rc st cnt room by (simp add: running_def counts_ok_def)
  have old': "\<forall>r \<in> set (observed st). \<exists>a. r jobId = Some a \<and> running a \<and> j_sent a \<le> j_sent ?b \<and> j_failed a \<le> j_failed ?b"
  proof
    fix r assume "r \<in> set (observed st)"
    with old obtain a where "r jobId = Some a" "running a" "j_sent a \<le> j_sent cur" "j_failed a \<le> j_failed cur"
      by blast
    with cnt show "\<exists>a. r jobId = Some a \<and> running a \<and> j_sent a \<le> j_sent ?b \<and> j_failed a \<le> j_failed ?b"
      by (intro exI [of _ a]) simp
  qed
  have pol: "\<forall>r \<in> set (observed st). polls_ok jobId r ?js"
  proof
    fix r assume "r \<in> set (observed st)"
    with old' obtain a where "r jobId = Some a" "running a" "j_sent a \<le> j_sent ?b" "j_failed a \<le> j_failed ?b"
      by blast
    then show "polls_ok jobId r ?js"
      by (simp add: polls_ok_def poll_ok_def running_def terminal_def)
  qed
  have "sorted_wrt (polls_ok jobId) (observed st @ [?js])"
    using srt pol by (simp add: sorted_wrt_append)
  moreover have "j_sent ?b + j_failed ?b + k \<le> j_total ?b"
    using room st cnt by simp
  ultimately show ?thesis
    unfolding upd in_loop_def using old' rb by auto
qed

text \<open>An update that only corrects the total of a job that has not started.\<close>

lemma in_loop_total:
  assumes inv: "in_loop jobId 0 st" and cur: "jobs st jobId = Some cur"
    and z: "j_sent cur = 0" "j_failed cur = 0"
  shows "in_loop jobId n (update_and_observe jobId (no_update\<lparr> u_total := Some n \<rparr>) st)"
proof -
  let ?u = "no_update\<lparr> u_total := Some n \<rparr>"
  let ?b = "assign cur ?u"
  let ?js = "(jobs st)(jobId \<mapsto> ?b)"
  have b: "?b = cur\<lparr> j_total := n \<rparr>" by (simp add: assign_def no_update_def)
  from inv cur have ne: "observed st \<noteq> []" and l: "last (observed st) = jobs st"
    and old: "\<forall>r \<in> set (observed st). \<exists>a. r jobId = Some a \<and> running a \<and> j_sent a \<le> j_sent cur \<and> j_failed a \<le> j_failed cur"
    and srt: "sorted_wrt (polls_ok jobId) (observed st)"
    unfolding in_loop_def by auto
  from inv cur have rc: "running cur" by (metis in_loop_current option.inject)
  have upd: "update_and_observe jobId ?u st = st\<lparr> jobs := ?js, observed := observed st @ [?js] \<rparr>"
    using cur by (simp add: update_and_observe_def updateJobProgress_def Let_def)
  have rb: "running ?b"
    using rc z unfolding b by (simp add: running_def counts_ok_def)
  have old': "\<forall>r \<in> set (observed st). \<exists>a. r jobId = Some a \<and> running a \<and> j_sent a \<le> j_sent ?b \<and> j_failed a \<le> j_failed ?b"
    using old unfolding b by simp
  have pol: "\<forall>r \<in> set (observed st). polls_ok jobId r ?js"
  proof
    fix r assume "r \<in> set (observed st)"
    with old' obtain a where "r jobId = Some a" "running a" "j_sent a \<le> j_sent ?b" "j_failed a \<le> j_failed ?b"
      by blast
    then show "polls_ok jobId r ?js"
      by (simp add: polls_ok_def poll_ok_def running_def terminal_def)
  qed
  have "sorted_wrt (polls_ok jobId) (observed st @ [?js])"
    using srt pol by (simp add: sorted_wrt_append)
  moreover have "j_sent ?b + j_failed ?b + n \<le> j_total ?b"
    using z unfolding b by simp
  ultimately show ?thesis
    unfolding upd in_loop_def using old' rb by auto
qed

text \<open>An update that ends the job.\<close>

lemma in_loop_finish:
  assumes inv: "in_loop jobId k st"
    and u: "u_status u = Some s" "s = JCompleted \<or> s = JFailed" "u_completedAt u = Some t"
       "(u_error u \<noteq> None) = (s = JFailed)"
       "u_sent u = None" "u_failed u = None" "u_details u = None" "u_total u = None"
  shows "finished jobId (update_and_observe jobId u st)"
proof -
  from inv obtain cur where cur: "jobs st jobId = Some cur" and rc: "running cur"
    by (rule in_loop_current)
  let ?b = "assign cur u"
  let ?js = "(jobs st)(jobId \<mapsto> ?b)"
  from inv cur have ne: "observed st \<noteq> []" and l: "last (observed st) = jobs st"
    and old: "\<forall>r \<in> set (observed st). \<exists>a. r jobId = Some a \<and> running a \<and> j_sent a \<le> j_sent cur \<and> j_failed a \<le> j_failed cur"
    and srt: "sorted_wrt (polls_ok jobId) (observed st)"
    unfolding in_loop_def by auto
  have upd: "update_and_observe jobId u st = st\<lparr> jobs := ?js, observed := observed st @ [?js] \<rparr>"
    using cur by (simp add: update_and_observe_def updateJobProgress_def Let_def)
  have same: "j_sent ?b = j_sent cur" "j_failed ?b = j_failed cur" "j_details ?b = j_details cur"
    "j_total ?b = j_total cur"
    using u by (simp_all add: assign_def)
  have fin: "terminal ?b" "j_completedAt ?b \<noteq> None" "counts_ok ?b" "error_ok ?b"
    using u rc same by (auto simp: assign_def terminal_def counts_ok_def error_ok_def running_def
        split: option.splits)
  have pol: "\<forall>r \<in> set (observed st). polls_ok jobId r ?js"
  proof
    fix r assume "r \<in> set (observed st)"
    with old obtain a where "r jobId = Some a" "running a" "j_sent a \<le> j_sent cur" "j_failed a \<le> j_failed cur"
      by blast
    then show "polls_ok jobId r ?js"
      using same by (simp add: polls_ok_def poll_ok_def running_def terminal_def)
  qed
  have "sorted_wrt (polls_ok jobId) (observed st @ [?js])"
    using srt pol by (simp add: sorted_wrt_append)
  moreover have "\<forall>r \<in> set (observed st). \<exists>a. r jobId = Some a \<and> running a"
    using old by blast
  ultimately show ?thesis
    unfolding upd finished_def using fin by auto
qed

lemma on_failure_in_loop:
  assumes "in_loop jobId (Suc k) st"
  shows "in_loop jobId k (snd (on_failure w jobId userId method i tenant e st))"
proof -
  let ?entry = "failed_log userId method tenant e"
  let ?st1 = "perform [CallReminderLog ?entry] st"
  from assms have inv1: "in_loop jobId (Suc k) ?st1" by simp
  show ?thesis
  proof (cases "ReminderLog_create w i InCatch ?entry")
    case (Inl e')
    then have "snd (on_failure w jobId userId method i tenant e st) = ?st1"
      by (simp add: on_failure_def)
    with inv1 show ?thesis by (simp add: in_loop_weaken del: in_loop_perform)
  next
    case (Inr u)
    from inv1 obtain cur where cur: "jobs ?st1 jobId = Some cur"
      by (rule in_loop_current)
    let ?u = "no_update\<lparr> u_failed := Some (j_failed cur + 1),
                 u_details := Some (j_details cur @ [failed_detail tenant e]) \<rparr>"
    have "snd (on_failure w jobId userId method i tenant e st) = update_and_observe jobId ?u ?st1"
      using Inr cur by (simp add: on_failure_def)
    moreover have "in_loop jobId k (update_and_observe jobId ?u ?st1)"
      by (rule in_loop_step [OF inv1 cur]) (simp_all add: assign_def no_update_def)
    ultimately show ?thesis by simp
  qed
qed

lemma processTenant_in_loop:
  assumes "in_loop jobId (Suc k) st"
  shows "in_loop jobId k (snd (processTenant w jobId userId method targetMonth usr i tenant totalCost st))"
proof -
  obtain r evs where a: "attempt w userId method targetMonth usr i tenant = (r, evs)"
    by (cases "attempt w userId method targetMonth usr i tenant")
  let ?st1 = "perform evs st"
  from assms have inv1: "in_loop jobId (Suc k) ?st1" by simp
  show ?thesis
  proof (cases r)
    case (Inl e)
    have "snd (processTenant w jobId userId method targetMonth usr i tenant totalCost st)
        = snd (on_failure w jobId userId method i tenant e ?st1)"
      using a Inl by (simp add: processTenant_def split: prod.splits sum.splits)
    with on_failure_in_loop [OF inv1] show ?thesis by simp
  next
    case (Inr result)
    from inv1 obtain cur where cur: "jobs ?st1 jobId = Some cur"
      by (rule in_loop_current)
    let ?u = "no_update\<lparr>
                u_sent := Some (if r_success result then j_sent cur + 1 else j_sent cur),
                u_failed := Some (if r_success result then j_failed cur else j_failed cur + 1),
                u_details := Some (j_details cur @ [result_detail tenant result]),
                u_totalCost := Some (totalCost + cost_or_zero (r_cost result)) \<rparr>"
    have "snd (processTenant w jobId userId method targetMonth usr i tenant totalCost st)
        = update_and_observe jobId ?u ?st1"
      using a Inr cur by (simp add: processTenant_def Let_def)
    moreover have "in_loop jobId k (update_and_observe jobId ?u ?st1)"
      by (rule in_loop_step [OF inv1 cur]) (simp_all add: assign_def no_update_def)
    ultimately show ?thesis by simp
  qed
qed

lemma processTenants_in_loop:
  "in_loop jobId (length ts) st \<Longrightarrow>
   in_loop jobId 0 (snd (processTenants w jobId userId method targetMonth usr i ts totalCost st))"
proof (induction ts arbitrary: i totalCost st)
  case Nil
  then show ?case by simp
next
  case (Cons t ts)
  obtain r st' where p: "processTenant w jobId userId method targetMonth usr i t totalCost st = (r, st')"
    by (cases "processTenant w jobId userId method targetMonth usr i t totalCost st")
  from Cons.prems have "in_loop jobId (Suc (length ts)) st" by simp
  from processTenant_in_loop [OF this, of w userId "method" targetMonth usr i t totalCost] p
  have inv': "in_loop jobId (length ts) st'" by simp
  show ?case
  proof (cases r)
    case (Inl e)
    with p inv' show ?thesis by (simp add: in_loop_weaken)
  next
    case (Inr tc)
    with p Cons.IH [OF inv'] show ?thesis by simp
  qed
qed

lemma start_in_loop:
  "js jobId = Some (new_job jobId totalCount t0) \<Longrightarrow> in_loop jobId 0 (start js)"
  by (simp add: in_loop_def start_def new_job_def running_def counts_ok_def)

lemma fail_update_finishes:
  "in_loop jobId k st \<Longrightarrow> finished jobId (update_and_observe jobId (fail_update msg now) st)"
  by (rule in_loop_finish [where s = JFailed and t = now]) (simp_all add: fail_update_def no_update_def)

lemma logEvent_returns [simp]: "logEvent w userId eventType metadata = Inr ()"
  by (simp add: logEvent_def split: sum.splits)

lemma processRemindersInBackground_finished:
  assumes "js jobId = Some (new_job jobId totalCount t0)"
  shows "finished jobId
           (processRemindersInBackground w jobId userId tenantIds method targetMonth now (start js))"
proof -
  let ?st = "start js"
  have inv0: "in_loop jobId 0 ?st" using assms by (rule start_in_loop)
  have cur0: "jobs ?st jobId = Some (new_job jobId totalCount t0)"
    using assms by (simp add: start_def)
  note fin0 = fail_update_finishes [OF inv0]
  show ?thesis
  proof (cases "User_findById w userId")
    case (Inl e)
    then show ?thesis using fin0 by (simp add: processRemindersInBackground_def dispatch_def)
  next
    case (Inr uo)
    show ?thesis
    proof (cases uo)
      case None
      with Inr show ?thesis using fin0 by (simp add: processRemindersInBackground_def dispatch_def)
    next
      case (Some usr)
      show ?thesis
      proof (cases "Tenant_find w tenantIds userId")
        case (Inl e)
        with Inr Some show ?thesis using fin0
          by (simp add: processRemindersInBackground_def dispatch_def)
      next
        case tf: (Inr tenants)
        show ?thesis
        proof (cases "tenants = []")
          case True
          with Inr Some tf show ?thesis using fin0
            by (simp add: processRemindersInBackground_def dispatch_def)
        next
          case False
          let ?el = "eligibleTenants method tenants"
          let ?st1 = "update_and_observe jobId (no_update\<lparr> u_total := Some (length ?el) \<rparr>) ?st"
          have inv1: "in_loop jobId (length ?el) ?st1"
            by (rule in_loop_total [OF inv0 cur0]) (simp_all add: new_job_def)
          obtain r st2 where lp: "processTenants w jobId userId method targetMonth usr 0 ?el 0 ?st1 = (r, st2)"
            by (cases "processTenants w jobId userId method targetMonth usr 0 ?el 0 ?st1")
          from processTenants_in_loop [OF inv1, of w userId "method" targetMonth usr 0 0] lp
          have inv2: "in_loop jobId 0 st2" by simp
          show ?thesis
          proof (cases r)
            case (Inl e)
            have "processRemindersInBackground w jobId userId tenantIds method targetMonth now ?st
                = update_and_observe jobId (fail_update e now) st2"
              using Inr Some tf False lp Inl
              by (simp add: processRemindersInBackground_def dispatch_def Let_def)
            with fail_update_finishes [OF inv2] show ?thesis by simp
          next
            case rr: (Inr totalCost)
            from inv2 obtain cur where cur: "jobs st2 jobId = Some cur"
              by (rule in_loop_current)
            let ?meta = "\<lparr> s_method = method, s_sent = j_sent cur,
                            s_failed = j_failed cur, s_totalCost = totalCost \<rparr>"
            let ?st3 = "perform [CallEventLog userId ''REMINDERS_SENT'' ?meta] st2"
            let ?u = "no_update\<lparr> u_status := Some JCompleted, u_totalCost := Some totalCost,
                                  u_completedAt := Some now \<rparr>"
            have "processRemindersInBackground w jobId userId tenantIds method targetMonth now ?st
                = update_and_observe jobId ?u ?st3"
              using Inr Some tf False lp rr cur
              by (simp add: processRemindersInBackground_def dispatch_def Let_def)
            moreover from inv2 have "in_loop jobId 0 ?st3" by simp
            then have "finished jobId (update_and_observe jobId ?u ?st3)"
              by (rule in_loop_finish [where s = JCompleted and t = now]) (simp_all add: no_update_def)
            ultimately show ?thesis by simp
          qed
        qed
      qed
    qed
  qed
qed

section \<open>Invariants of the observed job\<close>

lemma running_ok: "running a \<Longrightarrow> counts_ok a \<and> completion_ok a \<and> error_ok a \<and> \<not> terminal a"
  by (simp add: running_def completion_ok_def error_ok_def terminal_def)

lemma finished_observed:
  assumes "finished jobId st" and "r \<in> set (observed st)"
  shows "\<exists>a. r jobId = Some a \<and> counts_ok a \<and> completion_ok a \<and> error_ok a"
proof -
  from assms(1) obtain fin where ne: "observed st \<noteq> []" and l: "last (observed st) = jobs st"
    and fin: "jobs st jobId = Some fin" "terminal fin" "j_completedAt fin \<noteq> None"
      "counts_ok fin" "error_ok fin"
    and old: "\<forall>r \<in> set (butlast (observed st)). \<exists>a. r jobId = Some a \<and> running a"
    unfolding finished_def by blast
  from ne have "observed st = butlast (observed st) @ [last (observed st)]" by simp
  then have "set (observed st) = insert (last (observed st)) (set (butlast (observed st)))"
    by (metis Un_insert_right append_Nil2 list.simps(15) set_append)
  with assms(2) have "r = jobs st \<or> r \<in> set (butlast (observed st))"
    using l by auto
  then show ?thesis
  proof
    assume "r = jobs st"
    with fin show ?thesis by (simp add: completion_ok_def)
  next
    assume "r \<in> set (butlast (observed st))"
    with old obtain a where "r jobId = Some a" "running a" by blast
    with running_ok [of a] show ?thesis by blast
  qed
qed

lemma accepted_finished:
  "finished jobId (accepted w js jobId eligibleCount t0 userId tenantIds method targetMonth now)"
  unfolding accepted_def createReminderJob_def
  by (simp add: Let_def processRemindersInBackground_finished [where totalCount = eligibleCount and ?t0.0 = t0])

text \<open>
  Claim C2: at every point where the job can be observed, from its creation through the
  correction of the total and every per-recipient update to the end of the run, the job
  satisfies \<open>0 \<le> sent + failed \<le> total\<close> and \<open>length details = sent + failed\<close>.
\<close>

theorem counters_within_total:
  "\<forall>r \<in> set (observed (accepted w js jobId eligibleCount t0 userId tenantIds method targetMonth now)).
     \<exists>a. r jobId = Some a \<and> 0 \<le> j_sent a + j_failed a \<and> j_sent a + j_failed a \<le> j_total a \<and>
          length (j_details a) = j_sent a + j_failed a"
proof
  fix r
  assume "r \<in> set (observed (accepted w js jobId eligibleCount t0 userId tenantIds method targetMonth now))"
  from finished_observed [OF accepted_finished this]
  show "\<exists>a. r jobId = Some a \<and> 0 \<le> j_sent a + j_failed a \<and> j_sent a + j_failed a \<le> j_total a \<and>
          length (j_details a) = j_sent a + j_failed a"
    by (auto simp: counts_ok_def)
qed

theorem counters_within_total_witness:
  "3 < length (observed run_sender_raises) \<and>
   (\<exists>a. (observed run_sender_raises ! 3) ''job-7'' = Some a \<and> j_sent a + j_failed a = 2 \<and> j_total a = 3 \<and>
        length (j_details a) = 2)"
proof -
  have len: "3 < length (observed run_sender_raises)" unfolding run_sender_raises_def by code_simp
  then have mem: "observed run_sender_raises ! 3 \<in> set (observed run_sender_raises)" by (rule nth_mem)
  have v: "map_option j_sent ((observed run_sender_raises ! 3) ''job-7'') = Some 1"
    "map_option j_failed ((observed run_sender_raises ! 3) ''job-7'') = Some 1"
    "map_option j_total ((observed run_sender_raises ! 3) ''job-7'') = Some 3"
    unfolding run_sender_raises_def by code_simp+
  from counters_within_total [of world_sender_raises Map.empty "''job-7''" 3 1000 "''u-1''"
      "[''t-1'', ''t-2'', ''t-3'']" SMS "''2025-11''" 2000, folded run_sender_raises_def] mem
  obtain a where "(observed run_sender_raises ! 3) ''job-7'' = Some a"
    "length (j_details a) = j_sent a + j_failed a" by blast
  with v len show ?thesis by auto
qed

text \<open>
  Claim C5: at every point where the job can be observed, \<^verbatim>\<open>completedAt\<close> is set exactly
  when the status is completed or failed; and whatever the collaborators do, every run that
  ends, the outermost handler included, leaves the job with a terminal status and
  \<^verbatim>\<open>completedAt\<close> set.
\<close>

theorem completedAt_iff_terminal:
  "(\<forall>r \<in> set (observed (accepted w js jobId eligibleCount t0 userId tenantIds method targetMonth now)).
      \<exists>a. r jobId = Some a \<and>
           ((j_completedAt a \<noteq> None) = (j_status a = JCompleted \<or> j_status a = JFailed))) \<and>
   (\<exists>fin. jobs (accepted w js jobId eligibleCount t0 userId tenantIds method targetMonth now) jobId
             = Some fin \<and>
           (j_status fin = JCompleted \<or> j_status fin = JFailed) \<and> j_completedAt fin \<noteq> None)"
proof
  let ?st = "accepted w js jobId eligibleCount t0 userId tenantIds method targetMonth now"
  show "\<forall>r \<in> set (observed ?st). \<exists>a. r jobId = Some a \<and>
           ((j_completedAt a \<noteq> None) = (j_status a = JCompleted \<or> j_status a = JFailed))"
  proof
    fix r assume "r \<in> set (observed ?st)"
    from finished_observed [OF accepted_finished this]
    show "\<exists>a. r jobId = Some a \<and>
           ((j_completedAt a \<noteq> None) = (j_status a = JCompleted \<or> j_status a = JFailed))"
      by (auto simp: completion_ok_def terminal_def)
  qed
  have "finished jobId ?st" by (rule accepted_finished)
  then show "\<exists>fin. jobs ?st jobId = Some fin \<and>
           (j_status fin = JCompleted \<or> j_status fin = JFailed) \<and> j_completedAt fin \<noteq> None"
    unfolding finished_def terminal_def by blast
qed

theorem completedAt_iff_terminal_witness:
  "1 < length (observed run_log_goes_down) \<and>
   (\<exists>a. (observed run_log_goes_down ! 1) ''job-7'' = Some a \<and> j_status a = JProcessing \<and> j_completedAt a = None) \<and>
   (\<exists>fin. jobs run_log_goes_down ''job-7'' = Some fin \<and> j_status fin = JFailed \<and> j_completedAt fin \<noteq> None)"
proof -
  have len: "1 < length (observed run_log_goes_down)" unfolding run_log_goes_down_def by code_simp
  then have mem: "observed run_log_goes_down ! 1 \<in> set (observed run_log_goes_down)" by (rule nth_mem)
  have v: "map_option j_status ((observed run_log_goes_down ! 1) ''job-7'') = Some JProcessing"
    "map_option j_status (jobs run_log_goes_down ''job-7'') = Some JFailed"
    unfolding run_log_goes_down_def by code_simp+
  note main = completedAt_iff_terminal [of world_log_goes_down Map.empty "''job-7''" 3 1000 "''u-1''"
      "[''t-1'', ''t-2'', ''t-3'']" SMS "''2025-11''" 2000, folded run_log_goes_down_def]
  from main mem obtain a where a: "(observed run_log_goes_down ! 1) ''job-7'' = Some a"
    "(j_completedAt a \<noteq> None) = (j_status a = JCompleted \<or> j_status a = JFailed)" by blast
  from main obtain fin where f: "jobs run_log_goes_down ''job-7'' = Some fin" "j_completedAt fin \<noteq> None" by blast
  from a v(1) have "j_status a = JProcessing \<and> j_completedAt a = None" by auto
  moreover from f v(2) have "j_status fin = JFailed" by auto
  ultimately show ?thesis using len a(1) f by blast
qed

lemma poll_ok_refl: "poll_ok a a"
  by (simp add: poll_ok_def)

text \<open>A run writes to no job but its own.\<close>

lemma update_and_observe_other:
  "k \<noteq> jobId \<Longrightarrow> jobs (update_and_observe jobId u st) k = jobs st k"
  by (simp add: update_and_observe_def updateJobProgress_other Let_def)

lemma on_failure_other:
  "on_failure w jobId userId method i t e st = (r, st') \<Longrightarrow> k \<noteq> jobId \<Longrightarrow> jobs st' k = jobs st k"
  by (auto simp: on_failure_def Let_def update_and_observe_other split: sum.splits option.splits)

lemma processTenant_other:
  assumes "processTenant w jobId userId method targetMonth usr i t totalCost st = (r, st')"
    and "k \<noteq> jobId"
  shows "jobs st' k = jobs st k"
proof -
  obtain a evs where at: "attempt w userId method targetMonth usr i t = (a, evs)"
    by (cases "attempt w userId method targetMonth usr i t")
  show ?thesis
    using assms at
    by (cases a)
      (auto simp: processTenant_def Let_def update_and_observe_other
        split: prod.splits sum.splits option.splits dest!: on_failure_other)
qed

lemma processTenants_other:
  "processTenants w jobId userId method targetMonth usr i ts totalCost st = (r, st') \<Longrightarrow>
   k \<noteq> jobId \<Longrightarrow> jobs st' k = jobs st k"
proof (induction ts arbitrary: i totalCost st)
  case Nil
  then show ?case by simp
next
  case (Cons t ts)
  obtain r1 st1 where p: "processTenant w jobId userId method targetMonth usr i t totalCost st = (r1, st1)"
    by (cases "processTenant w jobId userId method targetMonth usr i t totalCost st")
  from processTenant_other [OF p Cons.prems(2)] have n1: "jobs st1 k = jobs st k" .
  show ?case
  proof (cases r1)
    case (Inl e)
    with p Cons.prems(1) n1 show ?thesis by simp
  next
    case (Inr tc)
    with p Cons.prems(1) have "processTenants w jobId userId method targetMonth usr (Suc i) ts tc st1 = (r, st')"
      by simp
    from Cons.IH [OF this Cons.prems(2)] n1 show ?thesis by simp
  qed
qed

lemma dispatch_other:
  assumes "dispatch w jobId userId tenantIds method targetMonth now st = (r, st')" and "k \<noteq> jobId"
  shows "jobs st' k = jobs st k"
  using assms
  by (auto simp: dispatch_def Let_def update_and_observe_other
      split: prod.splits sum.splits option.splits if_splits
      dest!: processTenants_other [where k = k])

lemma accepted_other:
  assumes "k \<noteq> jobId"
  shows "jobs (accepted w js jobId eligibleCount t0 userId tenantIds method targetMonth now) k = js k"
proof -
  let ?st = "start (js(jobId \<mapsto> new_job jobId eligibleCount t0))"
  obtain r st' where d: "dispatch w jobId userId tenantIds method targetMonth now ?st = (r, st')"
    by (cases "dispatch w jobId userId tenantIds method targetMonth now ?st")
  from dispatch_other [OF d assms] have "jobs st' k = js k"
    using assms by (simp add: start_def)
  with d assms show ?thesis
    by (cases r)
      (simp_all add: accepted_def createReminderJob_def processRemindersInBackground_def Let_def
        update_and_observe_other)
qed

lemma observed_in_order:
  assumes "i \<le> k"
    and "k < length (observed (accepted w js jobId eligibleCount t0 userId tenantIds method targetMonth now))"
    and "(observed (accepted w js jobId eligibleCount t0 userId tenantIds method targetMonth now) ! i) jobId = Some a"
    and "(observed (accepted w js jobId eligibleCount t0 userId tenantIds method targetMonth now) ! k) jobId = Some b"
  shows "poll_ok a b"
proof -
  let ?st = "accepted w js jobId eligibleCount t0 userId tenantIds method targetMonth now"
  have "finished jobId ?st" by (rule accepted_finished)
  then have srt: "sorted_wrt (polls_ok jobId) (observed ?st)" by (simp add: finished_def)
  show ?thesis
  proof (cases "i = k")
    case True
    with assms show ?thesis by (simp add: poll_ok_refl)
  next
    case False
    with assms(1) have "i < k" by simp
    with srt assms(2) have "polls_ok jobId (observed ?st ! i) (observed ?st ! k)"
      by (simp add: sorted_wrt_iff_nth_less)
    with assms(3,4) show ?thesis by (simp add: polls_ok_def)
  qed
qed

lemma poll_ok_unfold:
  "poll_ok a b \<Longrightarrow>
   j_sent a \<le> j_sent b \<and> j_failed a \<le> j_failed b \<and>
   (j_status a \<noteq> JProcessing \<longrightarrow>
      j_sent b = j_sent a \<and> j_failed b = j_failed a \<and> j_details b = j_details a \<and>
      j_totalCost b = j_totalCost a)"
  by (cases "j_status a") (simp_all add: poll_ok_def terminal_def)

lemma observed_last:
  "last (observed (accepted w js jobId eligibleCount t0 userId tenantIds method targetMonth now))
     = jobs (accepted w js jobId eligibleCount t0 userId tenantIds method targetMonth now)"
  using accepted_finished [of jobId w js eligibleCount t0 userId tenantIds "method" targetMonth now]
  by (simp add: finished_def)

text \<open>
  Claim C6: of two observations of the job, the later one never shows a smaller \<^verbatim>\<open>sent\<close>
  or \<^verbatim>\<open>failed\<close>; and once an observation shows a terminal status, every later one shows
  the same counters, details and total cost. The last observation of the run is the
  registry the run leaves, and nothing that happens later changes the job in it: a run
  accepted under another id leaves it as it is, and the sweep keeps it as it is or deletes
  it.
\<close>

theorem counters_never_regress:
  "(\<forall>i k a b. i \<le> k \<longrightarrow>
      k < length (observed (accepted w js jobId eligibleCount t0 userId tenantIds method targetMonth now)) \<longrightarrow>
      (observed (accepted w js jobId eligibleCount t0 userId tenantIds method targetMonth now) ! i) jobId = Some a \<longrightarrow>
      (observed (accepted w js jobId eligibleCount t0 userId tenantIds method targetMonth now) ! k) jobId = Some b \<longrightarrow>
      j_sent a \<le> j_sent b \<and> j_failed a \<le> j_failed b \<and>
      (j_status a \<noteq> JProcessing \<longrightarrow>
         j_sent b = j_sent a \<and> j_failed b = j_failed a \<and> j_details b = j_details a \<and>
         j_totalCost b = j_totalCost a)) \<and>
   last (observed (accepted w js jobId eligibleCount t0 userId tenantIds method targetMonth now))
     = jobs (accepted w js jobId eligibleCount t0 userId tenantIds method targetMonth now) \<and>
   (\<forall>w' jobId' eligibleCount' t0' userId' tenantIds' method' targetMonth' now'. jobId' \<noteq> jobId \<longrightarrow>
      jobs (accepted w' (jobs (accepted w js jobId eligibleCount t0 userId tenantIds method targetMonth now))
              jobId' eligibleCount' t0' userId' tenantIds' method' targetMonth' now') jobId
        = jobs (accepted w js jobId eligibleCount t0 userId tenantIds method targetMonth now) jobId) \<and>
   (\<forall>t b. cleanupOldJobs t (jobs (accepted w js jobId eligibleCount t0 userId tenantIds method targetMonth now)) jobId
             = Some b \<longrightarrow>
      jobs (accepted w js jobId eligibleCount t0 userId tenantIds method targetMonth now) jobId = Some b)"
proof -
  let ?st = "accepted w js jobId eligibleCount t0 userId tenantIds method targetMonth now"
  have A: "\<forall>i k a b. i \<le> k \<longrightarrow> k < length (observed ?st) \<longrightarrow>
      (observed ?st ! i) jobId = Some a \<longrightarrow> (observed ?st ! k) jobId = Some b \<longrightarrow>
      j_sent a \<le> j_sent b \<and> j_failed a \<le> j_failed b \<and>
      (j_status a \<noteq> JProcessing \<longrightarrow>
         j_sent b = j_sent a \<and> j_failed b = j_failed a \<and> j_details b = j_details a \<and>
         j_totalCost b = j_totalCost a)"
  proof (intro allI impI)
    fix i k a b
    assume "i \<le> k" "k < length (observed ?st)"
      "(observed ?st ! i) jobId = Some a" "(observed ?st ! k) jobId = Some b"
    then have "poll_ok a b" by (rule observed_in_order)
    then show "j_sent a \<le> j_sent b \<and> j_failed a \<le> j_failed b \<and>
      (j_status a \<noteq> JProcessing \<longrightarrow>
         j_sent b = j_sent a \<and> j_failed b = j_failed a \<and> j_details b = j_details a \<and>
         j_totalCost b = j_totalCost a)"
      by (rule poll_ok_unfold)
  qed
  have B: "last (observed ?st) = jobs ?st" by (rule observed_last)
  have C: "\<forall>w' jobId' eligibleCount' t0' userId' tenantIds' method' targetMonth' now'.
      jobId' \<noteq> jobId \<longrightarrow>
      jobs (accepted w' (jobs ?st) jobId' eligibleCount' t0' userId' tenantIds' method'
              targetMonth' now') jobId = jobs ?st jobId"
    by (intro allI impI) (simp add: accepted_other)
  have D: "\<forall>t b. cleanupOldJobs t (jobs ?st) jobId = Some b \<longrightarrow> jobs ?st jobId = Some b"
    by (intro allI impI) (rule cleanupOldJobs_kept)
  show ?thesis by (rule conjI [OF A conjI [OF B conjI [OF C D]]])
qed

theorem counters_never_regress_witness:
  "(2::nat) \<le> 4 \<and> 4 < length (observed run_all_delivered) \<and>
   (\<exists>a b. (observed run_all_delivered ! 2) ''job-7'' = Some a \<and> (observed run_all_delivered ! 4) ''job-7'' = Some b \<and>
      j_sent a = 1 \<and> j_sent b = 3 \<and> j_failed a \<le> j_failed b) \<and>
   ''job-8'' \<noteq> ''job-7'' \<and>
   jobs (accepted world_log_goes_down (jobs run_all_delivered) ''job-8'' 3 3000 ''u-1'' [''t-1'', ''t-2'', ''t-3'']
           SMS ''2025-11'' 4000) ''job-7'' = jobs run_all_delivered ''job-7''"
proof -
  have len: "4 < length (observed run_all_delivered)" unfolding run_all_delivered_def by code_simp
  have v: "map_option j_sent ((observed run_all_delivered ! 2) ''job-7'') = Some 1"
    "map_option j_sent ((observed run_all_delivered ! 4) ''job-7'') = Some 3"
    unfolding run_all_delivered_def by code_simp+
  then obtain a b where ab: "(observed run_all_delivered ! 2) ''job-7'' = Some a" "(observed run_all_delivered ! 4) ''job-7'' = Some b"
    "j_sent a = 1" "j_sent b = 3" by auto
  note main = counters_never_regress [of world0 Map.empty "''job-7''" 3 1000 "''u-1''"
      "[''t-1'', ''t-2'', ''t-3'']" SMS "''2025-11''" 2000, folded run_all_delivered_def]
  have le: "(2::nat) \<le> 4" by simp
  from main [THEN conjunct1, rule_format, OF le len ab(1) ab(2)]
  have f: "j_failed a \<le> j_failed b" by simp
  have ne: "''job-8'' \<noteq> ''job-7''" by simp
  from main [THEN conjunct2, THEN conjunct2, THEN conjunct1, rule_format, OF ne]
  have o: "jobs (accepted world_log_goes_down (jobs run_all_delivered) ''job-8'' 3 3000 ''u-1'' [''t-1'', ''t-2'', ''t-3'']
           SMS ''2025-11'' 4000) ''job-7'' = jobs run_all_delivered ''job-7''" .
  from len ab f ne o show ?thesis by simp
qed




section \<open>Failure isolation\<close>

text \<open>One iteration whose handler, if it runs, completes.\<close>

lemma processTenant_handled:
  assumes job: "jobs st jobId = Some job"
    and h: "handled w userId method targetMonth usr i tenant"
  shows "\<exists>tc' st' job'.
           processTenant w jobId userId method targetMonth usr i tenant totalCost st = (Inr tc', st') \<and>
           jobs st' jobId = Some job' \<and>
           j_details job' = j_details job @ [outcome w userId method targetMonth usr i tenant] \<and>
           j_sent job' = j_sent job +
             (if d_status (outcome w userId method targetMonth usr i tenant) = DSent then 1 else 0) \<and>
           j_failed job' = j_failed job +
             (if d_status (outcome w userId method targetMonth usr i tenant) = DFailed then 1 else 0) \<and>
           j_status job' = j_status job \<and> j_error job' = j_error job \<and>
           j_completedAt job' = j_completedAt job \<and> j_total job' = j_total job"
proof -
  obtain r evs where a: "attempt w userId method targetMonth usr i tenant = (r, evs)"
    by (cases "attempt w userId method targetMonth usr i tenant")
  show ?thesis
  proof (cases r)
    case (Inl e)
    with a h have lg: "ReminderLog_create w i InCatch (failed_log userId method tenant e) = Inr ()"
      by (simp add: handled_def)
    let ?u = "no_update\<lparr> u_failed := Some (j_failed job + 1),
                 u_details := Some (j_details job @ [failed_detail tenant e]) \<rparr>"
    let ?st1 = "perform [CallReminderLog (failed_log userId method tenant e)] (perform evs st)"
    have p: "processTenant w jobId userId method targetMonth usr i tenant totalCost st
           = (Inr totalCost, update_and_observe jobId ?u ?st1)"
      using a Inl lg job by (simp add: processTenant_def on_failure_def Let_def)
    have j: "jobs (update_and_observe jobId ?u ?st1) jobId = Some (assign job ?u)"
      using job by (simp add: update_and_observe_jobs)
    have o: "outcome w userId method targetMonth usr i tenant = failed_detail tenant e"
      using a Inl by (simp add: outcome_def)
    show ?thesis
      unfolding p o using j by (simp add: assign_def no_update_def failed_detail_def)
  next
    case (Inr result)
    let ?u = "no_update\<lparr>
                u_sent := Some (if r_success result then j_sent job + 1 else j_sent job),
                u_failed := Some (if r_success result then j_failed job else j_failed job + 1),
                u_details := Some (j_details job @ [result_detail tenant result]),
                u_totalCost := Some (totalCost + cost_or_zero (r_cost result)) \<rparr>"
    have p: "processTenant w jobId userId method targetMonth usr i tenant totalCost st
           = (Inr (totalCost + cost_or_zero (r_cost result)), update_and_observe jobId ?u (perform evs st))"
      using a Inr job by (simp add: processTenant_def Let_def)
    have j: "jobs (update_and_observe jobId ?u (perform evs st)) jobId = Some (assign job ?u)"
      using job by (simp add: update_and_observe_jobs)
    have o: "outcome w userId method targetMonth usr i tenant = result_detail tenant result"
      using a Inr by (simp add: outcome_def)
    show ?thesis
      unfolding p o using j by (simp add: assign_def no_update_def result_detail_def)
  qed
qed

lemma processTenants_handled:
  "jobs st jobId = Some job \<Longrightarrow> all_handled w userId method targetMonth usr i ts \<Longrightarrow>
   \<exists>tc' st' job'.
      processTenants w jobId userId method targetMonth usr i ts totalCost st = (Inr tc', st') \<and>
      jobs st' jobId = Some job' \<and>
      j_details job' = j_details job @ outcomes w userId method targetMonth usr i ts \<and>
      j_sent job' = j_sent job + count_status DSent (outcomes w userId method targetMonth usr i ts) \<and>
      j_failed job' = j_failed job + count_status DFailed (outcomes w userId method targetMonth usr i ts) \<and>
      j_status job' = j_status job \<and> j_error job' = j_error job \<and>
      j_completedAt job' = j_completedAt job \<and> j_total job' = j_total job"
proof (induction ts arbitrary: i totalCost st job)
  case Nil
  then show ?case by (simp add: count_status_def)
next
  case (Cons t ts)
  from Cons.prems have h: "handled w userId method targetMonth usr i t"
    and hs: "all_handled w userId method targetMonth usr (Suc i) ts" by simp_all
  from processTenant_handled [OF Cons.prems(1) h, where totalCost = totalCost]
  obtain tc1 st1 job1 where
    p: "processTenant w jobId userId method targetMonth usr i t totalCost st = (Inr tc1, st1)"
    and j1: "jobs st1 jobId = Some job1"
    and f1: "j_details job1 = j_details job @ [outcome w userId method targetMonth usr i t]"
      "j_sent job1 = j_sent job +
         (if d_status (outcome w userId method targetMonth usr i t) = DSent then 1 else 0)"
      "j_failed job1 = j_failed job +
         (if d_status (outcome w userId method targetMonth usr i t) = DFailed then 1 else 0)"
      "j_status job1 = j_status job" "j_error job1 = j_error job"
      "j_completedAt job1 = j_completedAt job" "j_total job1 = j_total job"
    by blast
  from Cons.IH [OF j1 hs, where totalCost = tc1]
  obtain tc2 st2 job2 where
    q: "processTenants w jobId userId method targetMonth usr (Suc i) ts tc1 st1 = (Inr tc2, st2)"
    and j2: "jobs st2 jobId = Some job2"
    and f2: "j_details job2 = j_details job1 @ outcomes w userId method targetMonth usr (Suc i) ts"
      "j_sent job2 = j_sent job1 + count_status DSent (outcomes w userId method targetMonth usr (Suc i) ts)"
      "j_failed job2 = j_failed job1 + count_status DFailed (outcomes w userId method targetMonth usr (Suc i) ts)"
      "j_status job2 = j_status job1" "j_error job2 = j_error job1"
      "j_completedAt job2 = j_completedAt job1" "j_total job2 = j_total job1"
    by blast
  have "processTenants w jobId userId method targetMonth usr i (t # ts) totalCost st = (Inr tc2, st2)"
    using p q by simp
  moreover note j2
  moreover have "j_details job2 = j_details job @ outcomes w userId method targetMonth usr i (t # ts)"
    using f1 f2 by simp
  moreover have "j_sent job2 = j_sent job + count_status DSent (outcomes w userId method targetMonth usr i (t # ts))"
    using f1 f2 by (simp add: count_status_def)
  moreover have "j_failed job2 = j_failed job + count_status DFailed (outcomes w userId method targetMonth usr i (t # ts))"
    using f1 f2 by (simp add: count_status_def)
  moreover have "j_status job2 = j_status job" "j_error job2 = j_error job"
    "j_completedAt job2 = j_completedAt job" "j_total job2 = j_total job"
    using f1 f2 by simp_all
  ultimately show ?case by blast
qed

text \<open>A whole accepted run in which every handler that runs completes.\<close>

lemma accepted_handled:
  assumes user: "User_findById w userId = Inr (Some usr)"
    and found: "Tenant_find w tenantIds userId = Inr tenants" and ne: "tenants \<noteq> []"
    and h: "all_handled w userId method targetMonth usr 0 (eligibleTenants method tenants)"
  shows "\<exists>fin. jobs (accepted w js jobId eligibleCount t0 userId tenantIds method targetMonth now) jobId
              = Some fin \<and>
           j_status fin = JCompleted \<and> j_completedAt fin = Some now \<and> j_error fin = None \<and>
           j_total fin = length (eligibleTenants method tenants) \<and>
           j_details fin = outcomes w userId method targetMonth usr 0 (eligibleTenants method tenants) \<and>
           j_sent fin = count_status DSent
              (outcomes w userId method targetMonth usr 0 (eligibleTenants method tenants)) \<and>
           j_failed fin = count_status DFailed
              (outcomes w userId method targetMonth usr 0 (eligibleTenants method tenants))"
proof -
  let ?el = "eligibleTenants method tenants"
  let ?js = "js(jobId \<mapsto> new_job jobId eligibleCount t0)"
  let ?u1 = "no_update\<lparr> u_total := Some (length ?el) \<rparr>"
  let ?st1 = "update_and_observe jobId ?u1 (start ?js)"
  let ?job1 = "assign (new_job jobId eligibleCount t0) ?u1"
  have j1: "jobs ?st1 jobId = Some ?job1"
    by (simp add: update_and_observe_jobs start_def)
  from processTenants_handled [OF j1 h, where totalCost = 0]
  obtain tc st2 job2 where
    q: "processTenants w jobId userId method targetMonth usr 0 ?el 0 ?st1 = (Inr tc, st2)"
    and j2: "jobs st2 jobId = Some job2"
    and f2: "j_details job2 = j_details ?job1 @ outcomes w userId method targetMonth usr 0 ?el"
      "j_sent job2 = j_sent ?job1 + count_status DSent (outcomes w userId method targetMonth usr 0 ?el)"
      "j_failed job2 = j_failed ?job1 + count_status DFailed (outcomes w userId method targetMonth usr 0 ?el)"
      "j_status job2 = j_status ?job1" "j_error job2 = j_error ?job1"
      "j_completedAt job2 = j_completedAt ?job1" "j_total job2 = j_total ?job1"
    by blast
  let ?meta = "\<lparr> s_method = method, s_sent = j_sent job2, s_failed = j_failed job2,
                  s_totalCost = tc \<rparr>"
  let ?u3 = "no_update\<lparr> u_status := Some JCompleted, u_totalCost := Some tc,
                         u_completedAt := Some now \<rparr>"
  let ?st3 = "perform [CallEventLog userId ''REMINDERS_SENT'' ?meta] st2"
  have "accepted w js jobId eligibleCount t0 userId tenantIds method targetMonth now
      = update_and_observe jobId ?u3 ?st3"
    using user found ne q j2
    by (simp add: accepted_def createReminderJob_def processRemindersInBackground_def
        dispatch_def Let_def)
  moreover have "jobs (update_and_observe jobId ?u3 ?st3) jobId = Some (assign job2 ?u3)"
    using j2 by (simp add: update_and_observe_jobs)
  moreover have "j_status (assign job2 ?u3) = JCompleted" "j_completedAt (assign job2 ?u3) = Some now"
    "j_error (assign job2 ?u3) = None" "j_total (assign job2 ?u3) = length ?el"
    "j_details (assign job2 ?u3) = outcomes w userId method targetMonth usr 0 ?el"
    "j_sent (assign job2 ?u3) = count_status DSent (outcomes w userId method targetMonth usr 0 ?el)"
    "j_failed (assign job2 ?u3) = count_status DFailed (outcomes w userId method targetMonth usr 0 ?el)"
    using f2 by (simp_all add: assign_def no_update_def new_job_def)
  ultimately show ?thesis by simp
qed

lemma outcomes_length [simp]:
  "length (outcomes w userId method targetMonth usr i ts) = length ts"
  by (induction ts arbitrary: i) simp_all

lemma outcomes_nth:
  "k < length ts \<Longrightarrow>
   outcomes w userId method targetMonth usr i ts ! k
     = outcome w userId method targetMonth usr (i + k) (ts ! k)"
proof (induction ts arbitrary: i k)
  case Nil
  then show ?case by simp
next
  case (Cons t ts)
  then show ?case by (cases k) simp_all
qed

lemma outcome_tenantId [simp]:
  "d_tenantId (outcome w userId method targetMonth usr i t) = t_id t"
  by (simp add: outcome_def failed_detail_def result_detail_def split: sum.splits)

lemma outcomes_tenantIds:
  "map d_tenantId (outcomes w userId method targetMonth usr i ts) = map t_id ts"
  by (induction ts arbitrary: i) simp_all

lemma all_handled_nth:
  "(\<And>k. k < length ts \<Longrightarrow> handled w userId method targetMonth usr (i + k) (ts ! k)) \<Longrightarrow>
   all_handled w userId method targetMonth usr i ts"
proof (induction ts arbitrary: i)
  case Nil
  then show ?case by simp
next
  case (Cons t ts)
  from Cons.prems [of 0] have "handled w userId method targetMonth usr i t" by simp
  moreover have "all_handled w userId method targetMonth usr (Suc i) ts"
  proof (rule Cons.IH)
    fix k assume "k < length ts"
    with Cons.prems [of "Suc k"] show "handled w userId method targetMonth usr (Suc i + k) (ts ! k)"
      by simp
  qed
  ultimately show ?case by simp
qed

lemma attempt_raises:
  "fst (deliver w method targetMonth usr i t) = Inl e \<Longrightarrow>
   fst (attempt w userId method targetMonth usr i t) = Inl e"
  by (cases "deliver w method targetMonth usr i t") (simp add: attempt_def)

lemma eligibleTenants_Nil [simp]: "eligibleTenants method [] = []"
  by (simp add: eligibleTenants_def)

lemma count_one:
  assumes "k < length xs" and "\<And>i. i < length xs \<Longrightarrow> P (xs ! i) = (i = k)"
  shows "length (filter P xs) = 1"
proof -
  have "{i. i < length xs \<and> P (xs ! i)} = {k}" using assms by auto
  then show ?thesis by (simp add: length_filter_conv_card)
qed

lemma count_all_but_one:
  assumes "k < length xs" and "\<And>i. i < length xs \<Longrightarrow> P (xs ! i) = (i \<noteq> k)"
  shows "length (filter P xs) = length xs - 1"
proof -
  have "{i. i < length xs \<and> P (xs ! i)} = {..<length xs} - {k}" using assms by auto
  then show ?thesis using assms(1) by (simp add: length_filter_conv_card)
qed

lemma Tenant_find_ids:
  "Tenant_find w tenantIds userId = Inr tenants \<Longrightarrow> t \<in> set tenants \<Longrightarrow> t_id t \<in> set tenantIds"
  by (auto simp: Tenant_find_def split: sum.splits)

lemma eligibleTenants_subset: "set (eligibleTenants method tenants) \<subseteq> set tenants"
  by (auto simp: eligibleTenants_def)

text \<open>
  Claim C1, as stated: when the channel sender raises for the second of three eligible
  recipients, the job is completed with three details in the order of the input list, and
  the loop never exits early. It fails twice. In the first run the sender raises for the
  second recipient and the log write of that iteration's \<^verbatim>\<open>catch\<close> block raises too: the
  exception leaves the loop, the job is failed with one detail, and the third recipient is
  never processed. In the second run the ids are submitted as \<open>t-3, t-2, t-1\<close> and the
  sender raises for the second recipient: the job is completed, and its details are in the
  order \<open>t-1, t-2, t-3\<close> of the collection, not in the order of the ids.
\<close>

theorem one_failure_counterexample:
  "fst (deliver world_sender_and_handler_raise SMS ''2025-11'' landlord 1 brian)
     = Inl ''provider timeout'' \<and>
   map_option j_status (jobs run_handler_raises ''job-7'') = Some JFailed \<and>
   map_option (map d_tenantId \<circ> j_details) (jobs run_handler_raises ''job-7'') = Some [''t-1''] \<and>
   map_option j_sent (jobs run_handler_raises ''job-7'') = Some 1 \<and>
   map_option j_failed (jobs run_handler_raises ''job-7'') = Some 0 \<and>
   fst (deliver world_sender_raises SMS ''2025-11'' landlord 1 brian) = Inl ''provider timeout'' \<and>
   map_option j_status
     (jobs (accepted world_sender_raises Map.empty ''job-7'' 3 1000 ''u-1''
              [''t-3'', ''t-2'', ''t-1''] SMS ''2025-11'' 2000) ''job-7'') = Some JCompleted \<and>
   map_option (map d_tenantId \<circ> j_details)
     (jobs (accepted world_sender_raises Map.empty ''job-7'' 3 1000 ''u-1''
              [''t-3'', ''t-2'', ''t-1''] SMS ''2025-11'' 2000) ''job-7'')
     = Some [''t-1'', ''t-2'', ''t-3'']"
  unfolding run_handler_raises_def by code_simp

text \<open>
  Claim C1, amended: a failure raised in the channel step of one recipient is isolated as
  long as the handler of that iteration completes. Let the run resolve the eligible
  recipients \<open>ts\<close>, in the order in which \<^verbatim>\<open>Tenant.find\<close> returned them; let the channel
  raise \<open>e\<close> for recipient \<open>k\<close> (rendering or sending raises); let the log write of that
  iteration's \<^verbatim>\<open>catch\<close> block return; and let every other recipient be delivered, logged
  and saved. Then the job is completed, with one detail per recipient in the order of
  \<open>ts\<close>, each for one of the submitted ids, entry \<open>k\<close> failed with the error \<open>e\<close> and
  all others sent, \<open>failed = 1\<close> and \<open>sent\<close> all the others. For the second of three
  recipients that is \<open>sent = 2\<close> and \<open>failed = 1\<close>, as the instance after the theorem
  shows. Lemma \<open>accepted_handled\<close> says the same of any number of failures: as long as each
  handler that runs completes, the loop goes through every recipient.
\<close>

theorem one_failure_is_isolated:
  assumes user: "User_findById w userId = Inr (Some usr)"
    and found: "Tenant_find w tenantIds userId = Inr tenants"
    and el: "eligibleTenants method tenants = ts"
    and k: "k < length ts"
    and others: "\<forall>i < length ts. i \<noteq> k \<longrightarrow>
                   (\<exists>r. fst (attempt w userId method targetMonth usr i (ts ! i)) = Inr r \<and> r_success r)"
    and raised: "fst (deliver w method targetMonth usr k (ts ! k)) = Inl e"
    and logged: "ReminderLog_create w k InCatch (failed_log userId method (ts ! k) e) = Inr ()"
  shows "\<exists>fin. jobs (accepted w js jobId eligibleCount t0 userId tenantIds method targetMonth now) jobId
              = Some fin \<and>
           j_status fin = JCompleted \<and> j_completedAt fin = Some now \<and> j_error fin = None \<and>
           length (j_details fin) = length ts \<and>
           map d_tenantId (j_details fin) = map t_id ts \<and>
           set (map d_tenantId (j_details fin)) \<subseteq> set tenantIds \<and>
           (\<forall>i < length ts. d_status (j_details fin ! i) = (if i = k then DFailed else DSent)) \<and>
           d_error (j_details fin ! k) = Some e \<and>
           j_sent fin = length ts - 1 \<and> j_failed fin = 1 \<and> j_total fin = length ts"
proof -
  let ?outs = "outcomes w userId method targetMonth usr 0 ts"
  have ak: "fst (attempt w userId method targetMonth usr k (ts ! k)) = Inl e"
    using raised by (rule attempt_raises)
  have ok: "outcome w userId method targetMonth usr k (ts ! k) = failed_detail (ts ! k) e"
    using ak by (simp add: outcome_def)
  have oi: "d_status (outcome w userId method targetMonth usr i (ts ! i)) = DSent"
    if "i < length ts" "i \<noteq> k" for i
  proof -
    from others that obtain r where
      "fst (attempt w userId method targetMonth usr i (ts ! i)) = Inr r" "r_success r" by blast
    then show ?thesis by (simp add: outcome_def result_detail_def)
  qed
  have st: "d_status (?outs ! i) = (if i = k then DFailed else DSent)" if "i < length ts" for i
    using that ok oi [of i] by (simp add: outcomes_nth failed_detail_def)
  have hd: "all_handled w userId method targetMonth usr 0 ts"
  proof (rule all_handled_nth)
    fix i assume i: "i < length ts"
    show "handled w userId method targetMonth usr (0 + i) (ts ! i)"
    proof (cases "i = k")
      case True
      with ak logged show ?thesis by (simp add: handled_def)
    next
      case False
      with others i obtain r where
        "fst (attempt w userId method targetMonth usr i (ts ! i)) = Inr r" by blast
      then show ?thesis by (simp add: handled_def)
    qed
  qed
  from k el have ne: "tenants \<noteq> []" by auto
  from hd el have "all_handled w userId method targetMonth usr 0 (eligibleTenants method tenants)"
    by simp
  from accepted_handled [OF user found ne this, of js jobId eligibleCount t0 now, unfolded el]
  obtain fin where fin:
    "jobs (accepted w js jobId eligibleCount t0 userId tenantIds method targetMonth now) jobId = Some fin"
    "j_status fin = JCompleted" "j_completedAt fin = Some now" "j_error fin = None"
    "j_total fin = length ts" "j_details fin = ?outs"
    "j_sent fin = count_status DSent ?outs" "j_failed fin = count_status DFailed ?outs"
    by blast
  have "count_status DFailed ?outs = 1"
    unfolding count_status_def by (rule count_one [of k]) (simp_all add: k st)
  moreover have "count_status DSent ?outs = length ts - 1"
    unfolding count_status_def using count_all_but_one [of k ?outs "\<lambda>d. d_status d = DSent"] k st
    by simp
  moreover have "d_error (?outs ! k) = Some e"
    using k ok by (simp add: outcomes_nth failed_detail_def)
  moreover have "set (map d_tenantId ?outs) \<subseteq> set tenantIds"
  proof -
    have "t_id ` set ts \<subseteq> set tenantIds"
      using Tenant_find_ids [OF found] eligibleTenants_subset [of "method" tenants] el by auto
    then show ?thesis by (simp add: outcomes_tenantIds)
  qed
  ultimately show ?thesis
    using fin st by (simp add: outcomes_tenantIds del: set_map)
qed

theorem one_failure_is_isolated_witness:
  "eligibleTenants SMS [amina, brian, carol] = [amina, brian, carol] \<and>
   fst (deliver world_sender_raises SMS ''2025-11'' landlord 1 ([amina, brian, carol] ! 1))
     = Inl ''provider timeout'' \<and>
   (\<exists>fin. jobs run_sender_raises ''job-7'' = Some fin \<and> j_status fin = JCompleted \<and>
      map d_tenantId (j_details fin) = [''t-1'', ''t-2'', ''t-3''] \<and>
      d_status (j_details fin ! 1) = DFailed \<and> d_error (j_details fin ! 1) = Some ''provider timeout'' \<and>
      j_sent fin = 2 \<and> j_failed fin = 1)"
proof -
  let ?ts = "[amina, brian, carol]"
  have user: "User_findById world_sender_raises ''u-1'' = Inr (Some landlord)"
    by code_simp
  have found: "Tenant_find world_sender_raises [''t-1'', ''t-2'', ''t-3''] ''u-1'' = Inr ?ts"
    by code_simp
  have el: "eligibleTenants SMS ?ts = ?ts" by (simp add: eligibleTenants_def)
  have k: "1 < length ?ts" by simp
  have a0: "fst (attempt world_sender_raises ''u-1'' SMS ''2025-11'' landlord 0 amina) = Inr (delivered 50)"
    and a2: "fst (attempt world_sender_raises ''u-1'' SMS ''2025-11'' landlord 2 carol) = Inr (delivered 50)"
    by code_simp+
  have others: "\<forall>i < length ?ts. i \<noteq> 1 \<longrightarrow>
       (\<exists>r. fst (attempt world_sender_raises ''u-1'' SMS ''2025-11'' landlord i (?ts ! i)) = Inr r
            \<and> r_success r)"
  proof (intro allI impI)
    fix i assume "i < length ?ts" "i \<noteq> 1"
    then have "i = 0 \<or> i = 2" by auto
    then show "\<exists>r. fst (attempt world_sender_raises ''u-1'' SMS ''2025-11'' landlord i (?ts ! i)) = Inr r
            \<and> r_success r"
      using a0 a2 by (auto simp: delivered_def)
  qed
  have raised: "fst (deliver world_sender_raises SMS ''2025-11'' landlord 1 (?ts ! 1)) = Inl ''provider timeout''"
    by code_simp
  have logged: "ReminderLog_create world_sender_raises 1 InCatch
                  (failed_log ''u-1'' SMS (?ts ! 1) ''provider timeout'') = Inr ()"
    by code_simp
  from one_failure_is_isolated [OF user found el k others raised logged,
      of Map.empty "''job-7''" 3 1000 2000, folded run_sender_raises_def]
  obtain fin where "jobs run_sender_raises ''job-7'' = Some fin" "j_status fin = JCompleted"
    "map d_tenantId (j_details fin) = map t_id ?ts"
    "\<forall>i < length ?ts. d_status (j_details fin ! i) = (if i = 1 then DFailed else DSent)"
    "d_error (j_details fin ! 1) = Some ''provider timeout''"
    "j_sent fin = length ?ts - 1" "j_failed fin = 1"
    by blast
  then show ?thesis using el raised
    by (auto simp: amina_def brian_def carol_def)
qed

text \<open>
  A raise the repository's own code can produce in the channel step: the e-mail subject
  reads the name of a property that is gone. The second of three recipients fails alone.
\<close>

lemma missing_property_is_isolated:
  "map_option j_status (jobs run_property_gone ''job-7'') = Some JCompleted \<and>
   map_option j_sent (jobs run_property_gone ''job-7'') = Some 2 \<and>
   map_option j_failed (jobs run_property_gone ''job-7'') = Some 1 \<and>
   map_option (map d_tenantId \<circ> j_details) (jobs run_property_gone ''job-7'') = Some [''t-1'', ''t-4'', ''t-3''] \<and>
   map_option (map d_error \<circ> j_details) (jobs run_property_gone ''job-7'')
     = Some [None, Some ''Cannot read properties of null (reading name)'', None]"
  unfolding run_property_gone_def by code_simp

section \<open>Failures of the audit log\<close>

lemma deliver_EventLog [simp]:
  "deliver (w\<lparr> EventLog_create := f \<rparr>) method targetMonth usr i t
     = deliver w method targetMonth usr i t"
  by (simp add: deliver_def split: sum.splits option.splits)

lemma attempt_EventLog [simp]:
  "attempt (w\<lparr> EventLog_create := f \<rparr>) userId method targetMonth usr i t
     = attempt w userId method targetMonth usr i t"
  by (simp add: attempt_def Let_def split: prod.splits sum.splits)

lemma on_failure_EventLog [simp]:
  "on_failure (w\<lparr> EventLog_create := f \<rparr>) jobId userId method i t e st
     = on_failure w jobId userId method i t e st"
  by (simp add: on_failure_def Let_def split: sum.splits option.splits)

lemma processTenant_EventLog [simp]:
  "processTenant (w\<lparr> EventLog_create := f \<rparr>) jobId userId method targetMonth usr i t totalCost st
     = processTenant w jobId userId method targetMonth usr i t totalCost st"
  by (simp add: processTenant_def Let_def split: prod.splits sum.splits option.splits)

lemma processTenants_EventLog [simp]:
  "processTenants (w\<lparr> EventLog_create := f \<rparr>) jobId userId method targetMonth usr i ts totalCost st
     = processTenants w jobId userId method targetMonth usr i ts totalCost st"
  by (induction ts arbitrary: i totalCost st) (simp_all split: prod.splits sum.splits)





section \<open>Runs that resolve no recipient\<close>

text \<open>
  Claim C4 on a run by e-mail that finds one tenant who belongs to the user, is not deleted
  and has no e-mail address: the set of eligible recipients is empty, and the job ends
  completed with total 0 and no error, where the claim says failed with an error. The
  emptiness test of line 332 comes before the filter by method of line 344.
\<close>

theorem no_email_address_run_completes:
  "Tenant_find world0 [''t-2''] ''u-1'' = Inr [brian] \<and>
   eligibleTenants Email [brian] = [] \<and>
   map_option j_status (jobs run_no_address ''job-7'') = Some JCompleted \<and>
   map_option j_error (jobs run_no_address ''job-7'') = Some None \<and>
   map_option j_total (jobs run_no_address ''job-7'') = Some 0 \<and>
   map_option j_details (jobs run_no_address ''job-7'') = Some []"
  unfolding run_no_address_def by code_simp

text \<open>
  The rest of claim C4 holds: when the user is not found, or no tenant of the user is
  found, the job fails with a message and a completion time, without details and without
  a single call to a channel or to the log.
\<close>

lemma unresolved_run_fails:
  assumes "User_findById w userId = Inr None \<or>
           (\<exists>usr. User_findById w userId = Inr (Some usr) \<and> Tenant_find w tenantIds userId = Inr [])"
  shows "\<exists>fin msg. jobs (accepted w js jobId eligibleCount t0 userId tenantIds method targetMonth now) jobId
              = Some fin \<and>
           j_status fin = JFailed \<and> j_error fin = Some msg \<and> j_completedAt fin = Some now \<and>
           j_details fin = [] \<and>
           effects (accepted w js jobId eligibleCount t0 userId tenantIds method targetMonth now) = []"
  using assms
  by (auto simp: accepted_def createReminderJob_def processRemindersInBackground_def dispatch_def
      update_and_observe_def updateJobProgress_def start_def fail_update_def assign_def no_update_def
      new_job_def Let_def)

section \<open>Delays between sends\<close>

text \<open>
  Claim C9 on a run over two recipients: the calls of the run, in order. The second send
  follows the first recipient's log write and save directly; no delay is among them.
\<close>

theorem no_delay_between_sends:
  "effects run_two_by_sms =
     [CallSendSMS ''+256700000011'' ''Hello Amina'',
      CallReminderLog \<lparr> l_userId = ''u-1'', l_tenantId = ''t-1'', l_type = SMS, l_status = DSent,
                        l_cost = 50, l_errorMessage = None \<rparr>,
      CallTenantSave ''t-1'',
      CallSendSMS ''+256700000013'' ''Hello Carol'',
      CallReminderLog \<lparr> l_userId = ''u-1'', l_tenantId = ''t-3'', l_type = SMS, l_status = DSent,
                        l_cost = 50, l_errorMessage = None \<rparr>,
      CallTenantSave ''t-3'',
      CallEventLog ''u-1'' ''REMINDERS_SENT''
        \<lparr> s_method = SMS, s_sent = 2, s_failed = 0, s_totalCost = 100 \<rparr>]"
  unfolding run_two_by_sms_def by code_simp

text \<open>
  The bulk sender, which the dispatch loop does not use, waits 100 ms after each send.
\<close>

lemma sendBulkSMS_delays:
  "snd (sendBulkSMS world0 0 [(''+256700000011'', ''Hello Amina''), (''+256700000013'', ''Hello Carol'')])
     = [CallSendSMS ''+256700000011'' ''Hello Amina'', Delay 100,
        CallSendSMS ''+256700000013'' ''Hello Carol'', Delay 100]"
  by code_simp

lemma no_delay_append [simp]: "no_delay (xs @ ys) = (no_delay xs \<and> no_delay ys)"
  by (auto simp: no_delay_def)

lemma no_delay_simps [simp]:
  "no_delay []"
  "no_delay (CallSendSMS a b # evs) = no_delay evs"
  "no_delay (CallSendEmail c a b # evs) = no_delay evs"
  "no_delay (CallReminderLog l # evs) = no_delay evs"
  "no_delay (CallTenantSave a # evs) = no_delay evs"
  "no_delay (CallEventLog a b s # evs) = no_delay evs"
  by (simp_all add: no_delay_def)

lemma effects_update [simp]: "effects (update_and_observe jobId u st) = effects st"
  by (simp add: update_and_observe_def Let_def)

lemma effects_perform [simp]: "effects (perform evs st) = effects st @ evs"
  by (simp add: perform_def)

lemma deliver_no_delay: "no_delay (snd (deliver w method targetMonth usr i t))"
  by (simp add: deliver_def split: sum.splits option.splits)

lemma attempt_no_delay: "no_delay (snd (attempt w userId method targetMonth usr i t))"
  using deliver_no_delay [of w "method" targetMonth usr i t]
  by (auto simp: attempt_def Let_def split: prod.splits sum.splits)

lemma on_failure_no_delay:
  "on_failure w jobId userId method i t e st = (r, st') \<Longrightarrow> no_delay (effects st) \<Longrightarrow>
   no_delay (effects st')"
  by (auto simp: on_failure_def Let_def split: sum.splits option.splits)

lemma processTenant_no_delay:
  assumes "processTenant w jobId userId method targetMonth usr i t totalCost st = (r, st')"
    and "no_delay (effects st)"
  shows "no_delay (effects st')"
proof -
  obtain a evs where at: "attempt w userId method targetMonth usr i t = (a, evs)"
    by (cases "attempt w userId method targetMonth usr i t")
  with attempt_no_delay [of w userId "method" targetMonth usr i t] have "no_delay evs" by simp
  with assms(2) have b: "no_delay (effects (perform evs st))" by simp
  show ?thesis
    using assms(1) at b
    by (cases a)
      (auto simp: processTenant_def Let_def split: prod.splits sum.splits option.splits
        dest: on_failure_no_delay)
qed

lemma processTenants_no_delay:
  "processTenants w jobId userId method targetMonth usr i ts totalCost st = (r, st') \<Longrightarrow>
   no_delay (effects st) \<Longrightarrow> no_delay (effects st')"
proof (induction ts arbitrary: i totalCost st)
  case Nil
  then show ?case by simp
next
  case (Cons t ts)
  obtain r1 st1 where p: "processTenant w jobId userId method targetMonth usr i t totalCost st = (r1, st1)"
    by (cases "processTenant w jobId userId method targetMonth usr i t totalCost st")
  from processTenant_no_delay [OF p Cons.prems(2)] have n1: "no_delay (effects st1)" .
  show ?case
  proof (cases r1)
    case (Inl e)
    with p Cons.prems(1) n1 show ?thesis by simp
  next
    case (Inr tc)
    with p Cons.prems(1) have "processTenants w jobId userId method targetMonth usr (Suc i) ts tc st1 = (r, st')"
      by simp
    from Cons.IH [OF this n1] show ?thesis .
  qed
qed

lemma dispatch_no_delay:
  assumes "dispatch w jobId userId tenantIds method targetMonth now st = (r, st')"
    and "no_delay (effects st)"
  shows "no_delay (effects st')"
proof -
  have b: "no_delay (effects (update_and_observe jobId u st))" for u using assms(2) by simp
  show ?thesis
    using assms
    by (auto simp: dispatch_def Let_def split: prod.splits sum.splits option.splits if_splits
        dest!: processTenants_no_delay [OF _ b])
qed

text \<open>
  No accepted run ever delays, whatever the collaborators do.
\<close>

lemma accepted_never_delays:
  "Delay n \<notin> set (effects (accepted w js jobId eligibleCount t0 userId tenantIds method targetMonth now))"
proof -
  let ?st = "start (js(jobId \<mapsto> new_job jobId eligibleCount t0))"
  obtain r st' where d: "dispatch w jobId userId tenantIds method targetMonth now ?st = (r, st')"
    by (cases "dispatch w jobId userId tenantIds method targetMonth now ?st")
  have "no_delay (effects ?st)" by (simp add: start_def)
  from dispatch_no_delay [OF d this] have "no_delay (effects st')" .
  with d have "no_delay (effects (accepted w js jobId eligibleCount t0 userId tenantIds method targetMonth now))"
    by (cases r) (simp_all add: accepted_def createReminderJob_def processRemindersInBackground_def Let_def)
  then show ?thesis by (simp add: no_delay_def)
qed

end
